theory Spec2Isabelle
  imports Main "HOL-Library.Word"
begin

section \<open>Data model of \<^verbatim>\<open>prover/proving_system.go\<close>\<close>

text \<open>
  The value of a \<^verbatim>\<open>big.Int\<close> is an unbounded signed integer (\<open>int\<close>), \<^verbatim>\<open>uint32\<close> is a
  32-bit word, a slice is a list, a byte is an 8-bit word. \<^verbatim>\<open>len\<close> returns a Go \<^verbatim>\<open>int\<close>,
  taken to be 64 bits wide, so that \<^verbatim>\<open>int(batchSize)\<close> is the unsigned value of the word.
  The record \<open>Parameters\<close> holds the values of the fields; how the \<^verbatim>\<open>big.Int\<close>s lie in
  memory, which matters where one is written, comes with \<^verbatim>\<open>ComputeInputHash\<close> below.
\<close>

type_synonym byte = "8 word"
type_synonym uint32 = "32 word"

record Parameters =
  InputHash :: int
  StartIndex :: uint32
  PreRoot :: int
  PostRoot :: int
  IdComms :: "int list"
  MerkleProofs :: "int list list"

text \<open>
  Go errors. The three errors of \<^verbatim>\<open>ValidateShape\<close> keep the numbers that
  \<^verbatim>\<open>fmt.Errorf\<close> prints; an error coming from a library (io, encoding/json, gnark) keeps
  its message.
\<close>

datatype error =
    WrongNumberOfIdComms nat
  | WrongNumberOfMerkleProofs nat
  | WrongSizeOfMerkleProof nat nat
  | LibraryError string

subsection \<open>\<^verbatim>\<open>ValidateShape\<close>\<close>

text \<open>The \<^verbatim>\<open>for i, proof := range p.MerkleProofs\<close> loop, \<open>i\<close> being the running index.\<close>

fun check_proofs :: "nat \<Rightarrow> nat \<Rightarrow> int list list \<Rightarrow> error + unit" where
  "check_proofs treeDepth i [] = Inr ()"
| "check_proofs treeDepth i (proof # rest) =
     (if length proof \<noteq> treeDepth then Inl (WrongSizeOfMerkleProof i (length proof))
      else check_proofs treeDepth (Suc i) rest)"

definition ValidateShape :: "Parameters \<Rightarrow> uint32 \<Rightarrow> uint32 \<Rightarrow> error + unit" where
  "ValidateShape p treeDepth batchSize =
     (if length (IdComms p) \<noteq> unat batchSize
        then Inl (WrongNumberOfIdComms (length (IdComms p)))
      else if length (MerkleProofs p) \<noteq> unat batchSize
        then Inl (WrongNumberOfMerkleProofs (length (MerkleProofs p)))
      else check_proofs (unat treeDepth) 0 (MerkleProofs p))"

text \<open>
  \<^verbatim>\<open>err.Error()\<close>: the message \<^verbatim>\<open>fmt.Errorf\<close> builds, \<^verbatim>\<open>%d\<close> printing a
  non-negative length in decimal.
\<close>

function show_nat :: "nat \<Rightarrow> string" where
  "show_nat n =
     (if n < 10 then [''0123456789'' ! n]
      else show_nat (n div 10) @ [''0123456789'' ! (n mod 10)])"
  by pat_completeness auto
termination
  by (relation "measure id") auto

declare show_nat.simps [simp del]

fun error_Error :: "error \<Rightarrow> string" where
  "error_Error (WrongNumberOfIdComms n) =
     ''wrong number of identity commitments: '' @ show_nat n"
| "error_Error (WrongNumberOfMerkleProofs n) =
     ''wrong number of merkle proofs: '' @ show_nat n"
| "error_Error (WrongSizeOfMerkleProof i n) =
     ''wrong size of merkle proof for proof '' @ show_nat i @ '': '' @ show_nat n"
| "error_Error (LibraryError msg) = msg"

subsection \<open>\<^verbatim>\<open>big.Int\<close> in memory\<close>

text \<open>
  \<^verbatim>\<open>Parameters\<close> holds its \<^verbatim>\<open>big.Int\<close> fields by value, and a \<^verbatim>\<open>big.Int\<close> is a sign
  and a slice of 64-bit words (\<^verbatim>\<open>abs\<close>, least significant word first): copying the
  struct copies the slice header, not the words, so two fields can share one word array.
  A slice header is the array it points into, its length and its capacity. The memory
  maps every array to its content and hands out new arrays in order; the content of an
  array is kept as the number its words spell, so that the low \<open>n\<close> words of an array with
  content \<open>c\<close> are \<open>c mod 2 ^ (64 * n)\<close>. The nil slice has length and capacity 0.
\<close>

type_synonym addr = nat

record big_Int =
  neg :: bool
  abs_array :: addr
  abs_len :: nat
  abs_cap :: nat

record memory =
  array :: "addr \<Rightarrow> nat"
  next_array :: addr

text \<open>The value of a \<^verbatim>\<open>big.Int\<close>: its sign and the first \<^verbatim>\<open>len(abs)\<close> words of its array.\<close>

definition Int_value :: "memory \<Rightarrow> big_Int \<Rightarrow> int" where
  "Int_value m x =
     (let magnitude = int (array m (abs_array x) mod 2 ^ (64 * abs_len x))
      in if neg x then - magnitude else magnitude)"

text \<open>
  \<^verbatim>\<open>Parameters\<close> as it lies in memory, and the values read from it. \<^verbatim>\<open>ValidateShape\<close>,
  \<^verbatim>\<open>Prove\<close> and the handler only read the parameters: they are given over the values.
\<close>

record Parameters_mem =
  mem_InputHash :: big_Int
  mem_StartIndex :: uint32
  mem_PreRoot :: big_Int
  mem_PostRoot :: big_Int
  mem_IdComms :: "big_Int list"
  mem_MerkleProofs :: "big_Int list list"

definition load :: "memory \<Rightarrow> Parameters_mem \<Rightarrow> Parameters" where
  "load m p =
     \<lparr>InputHash = Int_value m (mem_InputHash p),
      StartIndex = mem_StartIndex p,
      PreRoot = Int_value m (mem_PreRoot p),
      PostRoot = Int_value m (mem_PostRoot p),
      IdComms = map (Int_value m) (mem_IdComms p),
      MerkleProofs = map (map (Int_value m)) (mem_MerkleProofs p)\<rparr>"

subsection \<open>\<^verbatim>\<open>ComputeInputHash\<close>\<close>

text \<open>
  \<^verbatim>\<open>big.Int.Bytes\<close> returns the absolute value as a big-endian byte slice without
  leading zeros (the empty slice for 0), in a slice of its own.
\<close>

function nat_bytes :: "nat \<Rightarrow> byte list" where
  "nat_bytes n = (if n = 0 then [] else nat_bytes (n div 256) @ [of_nat (n mod 256)])"
  by pat_completeness auto
termination
  by (relation "measure id") auto

declare nat_bytes.simps [simp del]

definition Bytes :: "int \<Rightarrow> byte list" where
  "Bytes x = nat_bytes (nat \<bar>x\<bar>)"

text \<open>
  \<^verbatim>\<open>big.Int.SetBytes(buf)\<close> reads \<^verbatim>\<open>buf\<close> as a big-endian unsigned integer and stores it
  in the receiver, in place. It needs \<open>n\<close> words, \<^verbatim>\<open>(len(buf) + 7) / 8\<close>. When the
  receiver's slice has that capacity it writes the first \<open>n\<close> words of the array the
  receiver already points to, whoever else points to it; otherwise it takes a new array
  (of capacity 1 for one word, of \<open>n + 4\<close> else). The length is then cut to the words up
  to the highest one that is not zero, and the sign is cleared.
\<close>

definition bytes_nat :: "byte list \<Rightarrow> nat" where
  "bytes_nat bs = foldl (\<lambda>acc b. acc * 256 + unat b) 0 bs"

function word_len :: "nat \<Rightarrow> nat" where
  "word_len v = (if v = 0 then 0 else Suc (word_len (v div 18446744073709551616)))"
  by pat_completeness auto
termination
  by (relation "measure id") auto

declare word_len.simps [simp del]

definition SetBytes :: "memory \<Rightarrow> big_Int \<Rightarrow> byte list \<Rightarrow> memory \<times> big_Int" where
  "SetBytes m z buf =
     (let n = (length buf + 7) div 8;
          v = bytes_nat buf
      in if n \<le> abs_cap z
         then (m\<lparr>array := (array m)
                   (abs_array z := array m (abs_array z) div 2 ^ (64 * n) * 2 ^ (64 * n) + v)\<rparr>,
               z\<lparr>neg := False, abs_len := word_len v\<rparr>)
         else (m\<lparr>array := (array m)(next_array m := v), next_array := Suc (next_array m)\<rparr>,
               \<lparr>neg = False, abs_array = next_array m, abs_len = word_len v,
                abs_cap = (if n = 1 then 1 else n + 4)\<rparr>))"

text \<open>
  \<^verbatim>\<open>binary.Write(buf, binary.BigEndian, v)\<close> for a \<^verbatim>\<open>uint32\<close> on a
  \<^verbatim>\<open>bytes.Buffer\<close>: \<^verbatim>\<open>PutUint32\<close> stores \<^verbatim>\<open>v>>24, v>>16, v>>8, v\<close>, and the buffer
  takes the four bytes; the result is the buffer's new content.
\<close>

definition PutUint32 :: "uint32 \<Rightarrow> byte list" where
  "PutUint32 v = [ucast (drop_bit 24 v), ucast (drop_bit 16 v), ucast (drop_bit 8 v), ucast v]"

definition binary_Write :: "byte list \<Rightarrow> uint32 \<Rightarrow> error + byte list" where
  "binary_Write buf v = Inr (buf @ PutUint32 v)"

text \<open>
  The \<^verbatim>\<open>for _, v := range p.IdComms\<close> loop, appending to \<^verbatim>\<open>data\<close>; it is given the
  values of the commitments, which it only reads.
\<close>

fun append_IdComms :: "byte list \<Rightarrow> int list \<Rightarrow> byte list" where
  "append_IdComms data [] = data"
| "append_IdComms data (v # vs) =
     (let idBytes = Bytes v;
          idBytes = (if length idBytes < 32
                     then replicate (32 - length idBytes) 0 @ idBytes else idBytes)
      in append_IdComms (data @ idBytes) vs)"

text \<open>
  \<^verbatim>\<open>keccak256.Hash\<close> belongs to a library outside the repository: it is the parameter
  \<open>keccak256_Hash\<close>. The bytes are gathered from the memory as it is before the call;
  \<^verbatim>\<open>p.InputHash.SetBytes(hashBytes)\<close> then writes the memory and the header of
  \<^verbatim>\<open>p.InputHash\<close>.
\<close>

definition ComputeInputHash ::
  "(byte list \<Rightarrow> byte list) \<Rightarrow> memory \<Rightarrow> Parameters_mem
     \<Rightarrow> error + memory \<times> Parameters_mem" where
  "ComputeInputHash keccak256_Hash m p =
     (case binary_Write [] (mem_StartIndex p) of
        Inl err \<Rightarrow> Inl err
      | Inr buf \<Rightarrow>
          (let data = [] @ buf;
               data = data @ Bytes (Int_value m (mem_PreRoot p));
               data = data @ Bytes (Int_value m (mem_PostRoot p));
               data = append_IdComms data (map (Int_value m) (mem_IdComms p));
               hashBytes = keccak256_Hash data;
               (m', inputHash) = SetBytes m (mem_InputHash p) hashBytes
           in Inr (m', p\<lparr>mem_InputHash := inputHash\<rparr>)))"

text \<open>The parameters as they read after the call.\<close>

definition ComputeInputHash_result ::
  "(byte list \<Rightarrow> byte list) \<Rightarrow> memory \<Rightarrow> Parameters_mem \<Rightarrow> error + Parameters" where
  "ComputeInputHash_result keccak256_Hash m p =
     (case ComputeInputHash keccak256_Hash m p of
        Inl err \<Rightarrow> Inl err
      | Inr (m', p') \<Rightarrow> Inr (load m' p'))"

text \<open>
  The encoding in the specification's words: the start index as four big-endian bytes
  (written with division and remainder), the two roots in their minimal bytes, and every
  commitment left-padded with zero bytes to 32 bytes.
\<close>

definition spec_be4 :: "nat \<Rightarrow> byte list" where
  "spec_be4 n = [of_nat (n div 2 ^ 24 mod 256), of_nat (n div 2 ^ 16 mod 256),
                 of_nat (n div 2 ^ 8 mod 256), of_nat (n mod 256)]"

definition pad32 :: "int \<Rightarrow> byte list" where
  "pad32 v = replicate (32 - length (Bytes v)) 0 @ Bytes v"

definition spec_encoding :: "Parameters \<Rightarrow> byte list" where
  "spec_encoding p =
     spec_be4 (unat (StartIndex p)) @ Bytes (PreRoot p) @ Bytes (PostRoot p)
       @ concat (map pad32 (IdComms p))"

text \<open>
  The \<^verbatim>\<open>big.Int\<close>s of the parameters other than the input hash, and the condition that
  none of them shares the word array of the input hash: each lies in an array handed
  out before the call, and in another array than the input hash unless the input
  hash has no array (capacity 0).
\<close>

definition other_Ints :: "Parameters_mem \<Rightarrow> big_Int list" where
  "other_Ints p =
     [mem_PreRoot p, mem_PostRoot p] @ mem_IdComms p @ concat (mem_MerkleProofs p)"

definition unshared :: "memory \<Rightarrow> Parameters_mem \<Rightarrow> bool" where
  "unshared m p \<longleftrightarrow>
     (\<forall>x \<in> set (other_Ints p).
        abs_array x < next_array m
        \<and> (abs_cap (mem_InputHash p) = 0 \<or> abs_array x \<noteq> abs_array (mem_InputHash p)))"

subsection \<open>The proving backend\<close>

text \<open>
  \<^verbatim>\<open>frontend.Variable\<close> is Go's empty interface: a field of the circuit holds nothing
  (\<^verbatim>\<open>nil\<close>), a \<^verbatim>\<open>big.Int\<close> or a \<^verbatim>\<open>uint32\<close>. The struct \<^verbatim>\<open>MbuCircuit\<close> is
  declared in another file of the package; its fields are those the composite literals in
  \<^verbatim>\<open>Prove\<close>, \<^verbatim>\<open>Verify\<close> and \<^verbatim>\<open>BuildR1CS\<close> name, a field a literal leaves out taking
  Go's zero value.
\<close>

datatype Variable = Nil_Variable | BigInt int | Uint32 uint32

record MbuCircuit =
  circuit_InputHash :: Variable
  circuit_StartIndex :: Variable
  circuit_PreRoot :: Variable
  circuit_PostRoot :: Variable
  circuit_IdComms :: "Variable list"
  circuit_MerkleProofs :: "Variable list list"
  circuit_BatchSize :: int
  circuit_Depth :: int

record ('pk, 'vk, 'cs) ProvingSystem =
  TreeDepth :: uint32
  BatchSize :: uint32
  ProvingKey :: 'pk
  VerifyingKey :: 'vk
  ConstraintSystem :: 'cs

datatype 'prf Proof = Proof 'prf

text \<open>
  The gnark library is outside the repository: its three entry points used here are the
  fields of a backend, over opaque types of keys, constraint systems, proofs and
  witnesses. The flag of \<open>frontend_NewWitness\<close> is the option \<^verbatim>\<open>frontend.PublicOnly()\<close>.
\<close>

record ('pk, 'vk, 'cs, 'prf, 'w) Backend =
  frontend_NewWitness :: "MbuCircuit \<Rightarrow> bool \<Rightarrow> error + 'w"
  groth16_Prove :: "'cs \<Rightarrow> 'pk \<Rightarrow> 'w \<Rightarrow> error + 'prf"
  groth16_Verify :: "'prf \<Rightarrow> 'vk \<Rightarrow> 'w \<Rightarrow> error + unit"

text \<open>What a call does besides returning: library calls and log lines, in order.\<close>

datatype event =
    LogInfo string
  | CallNewWitness MbuCircuit bool
  | CallGroth16Prove
  | CallGroth16Verify
  | CallReadAll
  | CallUnmarshal
  | CallMarshal

subsection \<open>\<^verbatim>\<open>Prove\<close> and \<^verbatim>\<open>Verify\<close>\<close>

definition Prove ::
  "('pk, 'vk, 'cs, 'prf, 'w) Backend \<Rightarrow> ('pk, 'vk, 'cs) ProvingSystem \<Rightarrow> Parameters
     \<Rightarrow> (error + 'prf Proof) \<times> event list" where
  "Prove backend ps params =
     (case ValidateShape params (TreeDepth ps) (BatchSize ps) of
        Inl err \<Rightarrow> (Inl err, [])
      | Inr _ \<Rightarrow>
          (let idComms = map (\<lambda>i. BigInt (IdComms params ! i)) [0 ..< unat (BatchSize ps)];
               proofs = map (\<lambda>i. map (\<lambda>j. BigInt (MerkleProofs params ! i ! j))
                                   [0 ..< unat (TreeDepth ps)])
                            [0 ..< unat (BatchSize ps)];
               assignment = \<lparr>circuit_InputHash = BigInt (InputHash params),
                             circuit_StartIndex = Uint32 (StartIndex params),
                             circuit_PreRoot = BigInt (PreRoot params),
                             circuit_PostRoot = BigInt (PostRoot params),
                             circuit_IdComms = idComms,
                             circuit_MerkleProofs = proofs,
                             circuit_BatchSize = 0,
                             circuit_Depth = 0\<rparr>
           in case frontend_NewWitness backend assignment False of
                Inl err \<Rightarrow> (Inl err, [CallNewWitness assignment False])
              | Inr witness \<Rightarrow>
                  (case groth16_Prove backend (ConstraintSystem ps) (ProvingKey ps) witness of
                     Inl err \<Rightarrow>
                       (Inl err, [CallNewWitness assignment False,
                                  LogInfo ''generating proof'', CallGroth16Prove])
                   | Inr proof \<Rightarrow>
                       (Inr (Proof proof),
                        [CallNewWitness assignment False, LogInfo ''generating proof'',
                         CallGroth16Prove, LogInfo ''proof generated successfully'']))))"

definition Verify ::
  "('pk, 'vk, 'cs, 'prf, 'w) Backend \<Rightarrow> ('pk, 'vk, 'cs) ProvingSystem \<Rightarrow> int \<Rightarrow> 'prf Proof
     \<Rightarrow> (error + unit) \<times> event list" where
  "Verify backend ps inputHash proof =
     (let publicAssignment = \<lparr>circuit_InputHash = BigInt inputHash,
                              circuit_StartIndex = Nil_Variable,
                              circuit_PreRoot = Nil_Variable,
                              circuit_PostRoot = Nil_Variable,
                              circuit_IdComms = replicate (unat (BatchSize ps)) Nil_Variable,
                              circuit_MerkleProofs = [],
                              circuit_BatchSize = 0,
                              circuit_Depth = 0\<rparr>
      in case frontend_NewWitness backend publicAssignment True of
           Inl err \<Rightarrow> (Inl err, [CallNewWitness publicAssignment True])
         | Inr witness \<Rightarrow>
             (case proof of Proof prf \<Rightarrow>
                (groth16_Verify backend prf (VerifyingKey ps) witness,
                 [CallNewWitness publicAssignment True, CallGroth16Verify])))"

text \<open>The values an assignment supplies: its fields and entries that are not \<^verbatim>\<open>nil\<close>.\<close>

definition supplied :: "MbuCircuit \<Rightarrow> Variable list" where
  "supplied a =
     filter (\<lambda>v. v \<noteq> Nil_Variable)
       ([circuit_InputHash a, circuit_StartIndex a, circuit_PreRoot a, circuit_PostRoot a]
          @ circuit_IdComms a @ concat (circuit_MerkleProofs a))"

section \<open>Data model of \<^verbatim>\<open>server/server.go\<close>\<close>

definition StatusOK :: nat where "StatusOK = 200"
definition StatusBadRequest :: nat where "StatusBadRequest = 400"
definition StatusMethodNotAllowed :: nat where "StatusMethodNotAllowed = 405"
definition StatusInternalServerError :: nat where "StatusInternalServerError = 500"
definition MethodPost :: string where "MethodPost = ''POST''"

record Error =
  StatusCode :: nat
  Code :: string
  Message :: string

text \<open>
  A request is its method and what \<^verbatim>\<open>io.ReadAll(r.Body)\<close> returns. An
  \<^verbatim>\<open>http.ResponseWriter\<close> keeps the status line once it is written and the bytes of the
  body: \<^verbatim>\<open>WriteHeader\<close> fixes the status the first time only, and \<^verbatim>\<open>Write\<close> writes
  status 200 first when no status was written. Writes to the connection are taken to
  succeed.
\<close>

record Request =
  Method :: string
  Body :: "error + byte list"

record ResponseWriter =
  status :: "nat option"
  body :: "byte list"

definition new_ResponseWriter :: ResponseWriter where
  "new_ResponseWriter = \<lparr>status = None, body = []\<rparr>"

definition WriteHeader :: "ResponseWriter \<Rightarrow> nat \<Rightarrow> ResponseWriter" where
  "WriteHeader w statusCode =
     (case status w of None \<Rightarrow> w\<lparr>status := Some statusCode\<rparr> | Some _ \<Rightarrow> w)"

definition Write :: "ResponseWriter \<Rightarrow> byte list \<Rightarrow> ResponseWriter" where
  "Write w bs = (let w = WriteHeader w StatusOK in w\<lparr>body := body w @ bs\<rparr>)"

text \<open>
  \<^verbatim>\<open>encoding/json\<close> is a library: \<^verbatim>\<open>json.Unmarshal\<close> into \<^verbatim>\<open>Parameters\<close>,
  \<^verbatim>\<open>json.Marshal\<close> of a proof, and \<^verbatim>\<open>json.Marshal\<close> of a \<^verbatim>\<open>map[string]string\<close>, which
  yields the object's bytes with the keys in sorted order and returns no error.
\<close>

record 'prf Json =
  json_Unmarshal :: "byte list \<Rightarrow> error + Parameters"
  json_Marshal_Proof :: "'prf Proof \<Rightarrow> error + byte list"
  json_Marshal_strings :: "(string \<times> string) list \<Rightarrow> byte list"

definition malformedBodyError :: "error \<Rightarrow> Error" where
  "malformedBodyError err =
     \<lparr>StatusCode = StatusBadRequest, Code = ''malformed_body'', Message = error_Error err\<rparr>"

definition provingError :: "error \<Rightarrow> Error" where
  "provingError err =
     \<lparr>StatusCode = StatusBadRequest, Code = ''proving_error'', Message = error_Error err\<rparr>"

definition unexpectedError :: "error \<Rightarrow> Error" where
  "unexpectedError err =
     \<lparr>StatusCode = StatusInternalServerError, Code = ''unexpected_error'',
      Message = error_Error err\<rparr>"

definition MarshalJSON :: "'prf Json \<Rightarrow> Error \<Rightarrow> error + byte list" where
  "MarshalJSON json error =
     Inr (json_Marshal_strings json [(''code'', Code error), (''message'', Message error)])"

definition marshal_failed :: string where
  \<open>marshal_failed = ''{"code": "unexpected_error", "message": "failed to marshal error"}''\<close>

definition send :: "'prf Json \<Rightarrow> Error \<Rightarrow> ResponseWriter \<Rightarrow> ResponseWriter" where
  "send json error w =
     (let w = WriteHeader w (StatusCode error);
          jsonBytes = (case MarshalJSON json error of
                         Inl err \<Rightarrow> map of_char marshal_failed
                       | Inr jsonBytes \<Rightarrow> jsonBytes)
      in Write w jsonBytes)"

subsection \<open>\<^verbatim>\<open>proveHandler.ServeHTTP\<close>\<close>

definition ServeHTTP ::
  "'prf Json \<Rightarrow> ('pk, 'vk, 'cs, 'prf, 'w) Backend \<Rightarrow> ('pk, 'vk, 'cs) ProvingSystem
     \<Rightarrow> ResponseWriter \<Rightarrow> Request \<Rightarrow> ResponseWriter \<times> event list" where
  "ServeHTTP json backend provingSystem w r =
     (if Method r \<noteq> MethodPost then (WriteHeader w StatusMethodNotAllowed, [])
      else
        (case Body r of
           Inl err \<Rightarrow>
             (send json (malformedBodyError err) w,
              [LogInfo ''received prove request'', CallReadAll])
         | Inr buf \<Rightarrow>
             (case json_Unmarshal json buf of
                Inl err \<Rightarrow>
                  (send json (malformedBodyError err) w,
                   [LogInfo ''received prove request'', CallReadAll, CallUnmarshal])
              | Inr params \<Rightarrow>
                  (case Prove backend provingSystem params of
                     (Inl err, evs) \<Rightarrow>
                       (send json (provingError err) w,
                        [LogInfo ''received prove request'', CallReadAll, CallUnmarshal] @ evs)
                   | (Inr proof, evs) \<Rightarrow>
                       (case json_Marshal_Proof json proof of
                          Inl err \<Rightarrow>
                            (send json (unexpectedError err) w,
                             [LogInfo ''received prove request'', CallReadAll, CallUnmarshal]
                               @ evs @ [CallMarshal])
                        | Inr responseBytes \<Rightarrow>
                            (Write (WriteHeader w StatusOK) responseBytes,
                             [LogInfo ''received prove request'', CallReadAll, CallUnmarshal]
                               @ evs @ [CallMarshal]))))))"

section \<open>The specification's words\<close>

text \<open>
  The complete assignment of \<^verbatim>\<open>Prove\<close>: every field of the parameters, each
  commitment and each entry of each Merkle proof in its place.
\<close>

definition complete_assignment :: "Parameters \<Rightarrow> MbuCircuit" where
  "complete_assignment params =
     \<lparr>circuit_InputHash = BigInt (InputHash params),
      circuit_StartIndex = Uint32 (StartIndex params),
      circuit_PreRoot = BigInt (PreRoot params),
      circuit_PostRoot = BigInt (PostRoot params),
      circuit_IdComms = map BigInt (IdComms params),
      circuit_MerkleProofs = map (map BigInt) (MerkleProofs params),
      circuit_BatchSize = 0,
      circuit_Depth = 0\<rparr>"

text \<open>
  The public assignment of \<^verbatim>\<open>Verify\<close>: the input hash and nothing else, beside \<open>n\<close>
  empty slots for the commitments.
\<close>

definition hash_only_assignment :: "nat \<Rightarrow> int \<Rightarrow> MbuCircuit" where
  "hash_only_assignment n inputHash =
     \<lparr>circuit_InputHash = BigInt inputHash,
      circuit_StartIndex = Nil_Variable,
      circuit_PreRoot = Nil_Variable,
      circuit_PostRoot = Nil_Variable,
      circuit_IdComms = replicate n Nil_Variable,
      circuit_MerkleProofs = [],
      circuit_BatchSize = 0,
      circuit_Depth = 0\<rparr>"

text \<open>
  Modelled from the spec: the declaration of \<^verbatim>\<open>MbuCircuit\<close>, whose tags make a field
  public or secret, and gnark's \<^verbatim>\<open>frontend.NewWitness\<close> are not among the sources. By
  the specification the input hash is the single public input, so a witness built with
  \<^verbatim>\<open>frontend.PublicOnly()\<close> is made from the input hash of the assignment alone.
\<close>

definition public_input_is_hash :: "('pk, 'vk, 'cs, 'prf, 'w) Backend \<Rightarrow> bool" where
  "public_input_is_hash backend \<longleftrightarrow>
     (\<forall>a a'. circuit_InputHash a = circuit_InputHash a' \<longrightarrow>
        frontend_NewWitness backend a True = frontend_NewWitness backend a' True)"

text \<open>The error response: a status and the JSON object of a code and a message.\<close>

definition error_response :: "'prf Json \<Rightarrow> nat \<Rightarrow> string \<Rightarrow> string \<Rightarrow> ResponseWriter" where
  "error_response json statusCode code message =
     \<lparr>status = Some statusCode,
      body = json_Marshal_strings json [(''code'', code), (''message'', message)]\<rparr>"

section \<open>Concrete parameters and stand-ins for the libraries\<close>

text \<open>
  Used to run the definitions on concrete inputs: two parameter bundles, a hash, a
  backend and a JSON codec that are plain functions.
\<close>

definition sample_hash :: "byte list \<Rightarrow> byte list" where
  "sample_hash data = take 32 (rev data @ replicate 32 1)"

definition commitment_30 :: int where
  "commitment_30 = 2 ^ 239 + 7"

definition commitment_32 :: int where
  "commitment_32 = 2 ^ 255"

definition shape_ok :: Parameters where
  "shape_ok = \<lparr>InputHash = 0, StartIndex = 5, PreRoot = 258, PostRoot = - 3,
     IdComms = [commitment_30, commitment_32], MerkleProofs = [[1, 2, 3], [4, 5, 6]]\<rparr>"

definition shape_short_proof :: Parameters where
  "shape_short_proof = \<lparr>InputHash = 0, StartIndex = 5, PreRoot = 258, PostRoot = - 3,
     IdComms = [commitment_30, commitment_32], MerkleProofs = [[1, 2, 3], [4, 5]]\<rparr>"

text \<open>
  The parameters \<open>shape_ok\<close> in memory: every \<^verbatim>\<open>big.Int\<close> in an array of its own and
  the input hash still the zero value; then the same with the input hash and the pre-root
  as copies of one \<^verbatim>\<open>big.Int\<close>, and with the input hash and the post-root sharing an
  array.
\<close>

definition one_word :: "addr \<Rightarrow> big_Int" where
  "one_word a = \<lparr>neg = False, abs_array = a, abs_len = 1, abs_cap = 1\<rparr>"

definition sample_memory :: memory where
  "sample_memory =
     \<lparr>array = (\<lambda>a. 0)(1 := 258, 2 := 3, 3 := nat commitment_30, 4 := nat commitment_32,
                5 := 1, 6 := 2, 7 := 3, 8 := 4, 9 := 5, 10 := 6),
      next_array = 11\<rparr>"

definition sample_params :: Parameters_mem where
  "sample_params =
     \<lparr>mem_InputHash = \<lparr>neg = False, abs_array = 0, abs_len = 0, abs_cap = 0\<rparr>,
      mem_StartIndex = 5,
      mem_PreRoot = one_word 1,
      mem_PostRoot = \<lparr>neg = True, abs_array = 2, abs_len = 1, abs_cap = 1\<rparr>,
      mem_IdComms = [\<lparr>neg = False, abs_array = 3, abs_len = 4, abs_cap = 8\<rparr>,
                     \<lparr>neg = False, abs_array = 4, abs_len = 4, abs_cap = 8\<rparr>],
      mem_MerkleProofs = [[one_word 5, one_word 6, one_word 7],
                          [one_word 8, one_word 9, one_word 10]]\<rparr>"

definition pre_root_shared :: Parameters_mem where
  "pre_root_shared =
     sample_params
       \<lparr>mem_InputHash := \<lparr>neg = False, abs_array = 1, abs_len = 1, abs_cap = 4\<rparr>,
        mem_PreRoot := \<lparr>neg = False, abs_array = 1, abs_len = 1, abs_cap = 4\<rparr>\<rparr>"

definition post_root_shared :: Parameters_mem where
  "post_root_shared =
     sample_params
       \<lparr>mem_InputHash := \<lparr>neg = False, abs_array = 2, abs_len = 1, abs_cap = 4\<rparr>,
        mem_PostRoot := \<lparr>neg = True, abs_array = 2, abs_len = 1, abs_cap = 4\<rparr>\<rparr>"

definition sample_backend :: "(unit, nat, unit, nat, MbuCircuit) Backend" where
  "sample_backend =
     \<lparr>frontend_NewWitness = (\<lambda>a publicOnly.
          case circuit_InputHash a of
            Nil_Variable \<Rightarrow> Inl (LibraryError ''missing assignment'')
          | _ \<Rightarrow>
              Inr (if publicOnly
                   then \<lparr>circuit_InputHash = circuit_InputHash a,
                         circuit_StartIndex = Nil_Variable, circuit_PreRoot = Nil_Variable,
                         circuit_PostRoot = Nil_Variable, circuit_IdComms = [],
                         circuit_MerkleProofs = [], circuit_BatchSize = 0,
                         circuit_Depth = 0\<rparr>
                   else a)),
      groth16_Prove = (\<lambda>cs pk w.
          case circuit_PreRoot w of
            BigInt r \<Rightarrow> if r = 0 then Inl (LibraryError ''constraint is not satisfied'')
                        else Inr (nat \<bar>r\<bar>)
          | _ \<Rightarrow> Inl (LibraryError ''constraint is not satisfied'')),
      groth16_Verify = (\<lambda>prf vk w.
          case circuit_InputHash w of
            BigInt h \<Rightarrow> if int prf = int vk + h then Inr ()
                        else Inl (LibraryError ''pairing check failed'')
          | _ \<Rightarrow> Inl (LibraryError ''pairing check failed''))\<rparr>"

definition sample_system :: "(unit, nat, unit) ProvingSystem" where
  "sample_system =
     \<lparr>TreeDepth = 3, BatchSize = 2, ProvingKey = (), VerifyingKey = 9,
      ConstraintSystem = ()\<rparr>"

definition other_system :: "(unit, nat, unit) ProvingSystem" where
  "other_system =
     \<lparr>TreeDepth = 7, BatchSize = 3, ProvingKey = (), VerifyingKey = 9,
      ConstraintSystem = ()\<rparr>"

definition post :: "error + byte list \<Rightarrow> Request" where
  "post b = \<lparr>Method = ''POST'', Body = b\<rparr>"

definition sample_json :: "nat Json" where
  "sample_json =
     \<lparr>json_Unmarshal = (\<lambda>buf.
          if buf = [1] then Inr shape_ok
          else if buf = [2] then Inr shape_short_proof
          else if buf = [3] then Inr (shape_ok\<lparr>PreRoot := 0\<rparr>)
          else if buf = [4] then Inr (shape_ok\<lparr>PreRoot := 300\<rparr>)
          else Inl (LibraryError ''unexpected end of JSON input'')),
      json_Marshal_Proof = (\<lambda>proof.
          case proof of Proof n \<Rightarrow>
            if n < 300 then Inr (map of_char (show_nat n))
            else Inl (LibraryError ''unsupported value'')),
      json_Marshal_strings = (\<lambda>kvs. concat (map (\<lambda>(k, v). map of_char (k @ ''='' @ v @ '';'')) kvs))\<rparr>"

section \<open>Byte encodings\<close>

lemma unat_byte_of_shift:
  "unat (ucast (drop_bit k (v::uint32)) :: byte) = unat v div 2 ^ k mod 256"
proof -
  have "unat (ucast (drop_bit k v) :: byte) = unat (drop_bit k v) mod 256"
    by (simp add: unsigned_ucast_eq take_bit_eq_mod)
  also have "unat (drop_bit k v) = drop_bit k (unat v)"
    by (rule unat_drop_bit_eq)
  also have "drop_bit k (unat v) = unat v div 2 ^ k"
    by (rule drop_bit_eq_div)
  finally show ?thesis .
qed

lemma unat_byte_low: "unat (ucast (v::uint32) :: byte) = unat v mod 256"
  by (simp add: unsigned_ucast_eq take_bit_eq_mod)

lemma unat_of_nat_byte: "unat (of_nat m :: byte) = m mod 256"
  by (simp add: unat_of_nat)

lemma byte_of_shift: "(ucast (drop_bit k (v::uint32)) :: byte) = of_nat (unat v div 2 ^ k mod 256)"
proof -
  have "unat (ucast (drop_bit k v) :: byte) = unat (of_nat (unat v div 2 ^ k mod 256) :: byte)"
    by (simp only: unat_byte_of_shift unat_of_nat_byte mod_mod_trivial)
  then show ?thesis by (simp only: word_unat_eq_iff)
qed

lemma byte_low: "(ucast (v::uint32) :: byte) = of_nat (unat v mod 256)"
proof -
  have "unat (ucast v :: byte) = unat (of_nat (unat v mod 256) :: byte)"
    by (simp only: unat_byte_low unat_of_nat_byte mod_mod_trivial)
  then show ?thesis by (simp only: word_unat_eq_iff)
qed

lemma PutUint32_big_endian: "PutUint32 v = spec_be4 (unat v)"
proof -
  have "PutUint32 v = [of_nat (unat v div 2 ^ 24 mod 256), of_nat (unat v div 2 ^ 16 mod 256),
                       of_nat (unat v div 2 ^ 8 mod 256), ucast v]"
    unfolding PutUint32_def by (simp only: byte_of_shift)
  also have "(ucast v :: byte) = of_nat (unat v mod 256)"
    by (rule byte_low)
  finally show ?thesis
    unfolding spec_be4_def .
qed

lemma bytes_nat_append: "bytes_nat (xs @ ys) = bytes_nat xs * 256 ^ length ys + bytes_nat ys"
proof (induction ys rule: rev_induct)
  case Nil
  show ?case by (simp add: bytes_nat_def)
next
  case (snoc y ys)
  have "bytes_nat (xs @ ys @ [y]) = bytes_nat (xs @ ys) * 256 + unat y"
    by (simp add: bytes_nat_def)
  also have "\<dots> = (bytes_nat xs * 256 ^ length ys + bytes_nat ys) * 256 + unat y"
    by (simp only: snoc.IH)
  also have "\<dots> = bytes_nat xs * 256 ^ length (ys @ [y]) + (bytes_nat ys * 256 + unat y)"
    by (simp add: algebra_simps)
  also have "bytes_nat ys * 256 + unat y = bytes_nat (ys @ [y])"
    by (simp add: bytes_nat_def)
  finally show ?case by simp
qed

lemma bytes_nat_big_endian:
  "bytes_nat bs = (\<Sum>i < length bs. unat (bs ! i) * 256 ^ (length bs - 1 - i))"
proof (induction bs rule: rev_induct)
  case Nil
  show ?case by (simp add: bytes_nat_def)
next
  case (snoc b bs)
  have "bytes_nat (bs @ [b]) = bytes_nat bs * 256 + unat b"
    by (simp add: bytes_nat_def)
  also have "bytes_nat bs * 256 = (\<Sum>i < length bs. unat (bs ! i) * 256 ^ (length bs - 1 - i) * 256)"
    by (simp only: snoc.IH sum_distrib_right)
  also have "\<dots> = (\<Sum>i < length bs. unat ((bs @ [b]) ! i) * 256 ^ (length (bs @ [b]) - 1 - i))"
  proof (rule sum.cong [OF refl])
    fix i assume "i \<in> {..<length bs}"
    then have i: "i < length bs" by simp
    then have "Suc (length bs - 1 - i) = length bs - i" by simp
    then have "(256::nat) ^ (length bs - 1 - i) * 256 = 256 ^ (length bs - i)"
      by (metis power_Suc2)
    with i show "unat (bs ! i) * 256 ^ (length bs - 1 - i) * 256
          = unat ((bs @ [b]) ! i) * 256 ^ (length (bs @ [b]) - 1 - i)"
      by (simp add: nth_append)
  qed
  finally show ?case by simp
qed

lemma bytes_nat_single: "bytes_nat [b] = unat b"
  by (simp add: bytes_nat_def)

lemma bytes_nat_nat_bytes: "bytes_nat (nat_bytes n) = n"
proof (induction n rule: nat_bytes.induct)
  case (1 n)
  show ?case
  proof (cases "n = 0")
    case True
    then show ?thesis by (simp add: nat_bytes.simps bytes_nat_def)
  next
    case False
    have "unat (of_nat (n mod 256) :: byte) = n mod 256"
      by (simp add: unat_of_nat)
    with 1 False show ?thesis
      by (subst nat_bytes.simps) (simp add: bytes_nat_append bytes_nat_single)
  qed
qed

lemma nat_bytes_0: "nat_bytes 0 = []"
  by (simp add: nat_bytes.simps)

lemma nat_bytes_no_leading_zero: "nat_bytes n \<noteq> [] \<Longrightarrow> hd (nat_bytes n) \<noteq> 0"
proof (induction n rule: nat_bytes.induct)
  case (1 n)
  show ?case
  proof (cases "n div 256 = 0")
    case True
    with 1(2) have n: "n \<noteq> 0" "n < 256" by (auto simp: nat_bytes.simps split: if_splits)
    then have "nat_bytes n = [of_nat n]"
      by (subst nat_bytes.simps) (simp add: nat_bytes_0)
    moreover have "(of_nat n :: byte) \<noteq> 0"
      using n by (simp add: unat_of_nat word_eq_iff_unsigned [where ?'a = nat])
    ultimately show ?thesis by simp
  next
    case False
    then have n0: "n \<noteq> 0" by auto
    from False have ne: "nat_bytes (n div 256) \<noteq> []"
      by (subst nat_bytes.simps) simp
    from 1(1) [OF n0 ne] ne n0 show ?thesis
      by (subst nat_bytes.simps) simp
  qed
qed

lemma Bytes_minimal_big_endian:
  "int (bytes_nat (Bytes x)) = \<bar>x\<bar> \<and> (Bytes x = [] \<or> hd (Bytes x) \<noteq> 0)"
  using nat_bytes_no_leading_zero [of "nat \<bar>x\<bar>"]
  by (auto simp: Bytes_def bytes_nat_nat_bytes)

lemma append_IdComms_concat: "append_IdComms data vs = data @ concat (map pad32 vs)"
proof (induction vs arbitrary: data)
  case Nil
  show ?case by simp
next
  case (Cons v vs)
  have "(if length (Bytes v) < 32 then replicate (32 - length (Bytes v)) 0 @ Bytes v else Bytes v)
          = pad32 v"
    by (simp add: pad32_def)
  then show ?case
    by (simp add: Cons.IH Let_def)
qed

lemma length_pad32: "length (Bytes v) \<le> 32 \<Longrightarrow> length (pad32 v) = 32"
  by (simp add: pad32_def)

section \<open>The input hash\<close>

lemma be4_arith:
  fixes n :: nat
  assumes "n < 4294967296"
  shows "((n div 16777216 mod 256 * 256 + n div 65536 mod 256) * 256
            + n div 256 mod 256) * 256 + n mod 256 = n"
proof -
  define a where "a = n div 256"
  define b where "b = a div 256"
  define c where "c = b div 256"
  have "n div 65536 = n div (256 * 256)" by simp
  also have "\<dots> = b" unfolding a_def b_def by (rule div_mult2_eq)
  finally have nb: "n div 65536 = b" .
  have "n div 16777216 = n div (65536 * 256)" by simp
  also have "\<dots> = n div 65536 div 256" by (rule div_mult2_eq)
  finally have nc: "n div 16777216 = c" unfolding c_def nb .
  from assms have "c < 256" unfolding nc [symmetric] by simp
  then have cm: "c mod 256 = c" by simp
  have 1: "c * 256 + b mod 256 = b" unfolding c_def by simp
  have 2: "b * 256 + a mod 256 = a" unfolding b_def by simp
  have 3: "a * 256 + n mod 256 = n" unfolding a_def by simp
  show ?thesis
    unfolding nc nb a_def [symmetric] cm 1 2 3 ..
qed

lemma bytes_nat_spec_be4_raw:
  "bytes_nat (spec_be4 n) = ((n div 16777216 mod 256 * 256 + n div 65536 mod 256) * 256
            + n div 256 mod 256) * 256 + n mod 256"
  by (simp add: spec_be4_def bytes_nat_def unat_of_nat_byte)

lemma bytes_nat_spec_be4: "bytes_nat (spec_be4 (unat (v :: uint32))) = unat v"
proof -
  have "unat v < 4294967296" using unsigned_less [of v, where 'a = nat] by simp
  then show ?thesis
    by (simp only: bytes_nat_spec_be4_raw be4_arith)
qed


lemma word_len_bound: "v < 2 ^ (64 * word_len v)"
proof (induction v rule: word_len.induct)
  case (1 v)
  show ?case
  proof (cases "v = 0")
    case True
    then show ?thesis by simp
  next
    case False
    let ?q = "v div 18446744073709551616"
    have two64: "(18446744073709551616 :: nat) = 2 ^ 64" by simp
    from 1 False have ih: "?q < 2 ^ (64 * word_len ?q)" by simp
    have wl: "word_len v = Suc (word_len ?q)"
      using False by (subst word_len.simps) simp
    have "v < (Suc ?q) * 2 ^ 64"
      unfolding two64 [symmetric] using dividend_less_div_times [of 18446744073709551616 v]
      by simp
    also from ih have "Suc ?q \<le> 2 ^ (64 * word_len ?q)" by simp
    then have "Suc ?q * 2 ^ 64 \<le> 2 ^ (64 * word_len ?q) * (2 ^ 64 :: nat)"
      by (rule mult_le_mono1)
    also have "2 ^ (64 * word_len ?q) * (2 ^ 64 :: nat) = 2 ^ (64 * word_len v)"
      by (simp add: wl power_add)
    finally show ?thesis .
  qed
qed

lemma bytes_nat_snoc: "bytes_nat (bs @ [b]) = bytes_nat bs * 256 + unat b"
  by (simp add: bytes_nat_def)

lemma bytes_nat_less: "bytes_nat bs < 256 ^ length bs"
proof (induction bs rule: rev_induct)
  case Nil
  show ?case by (simp add: bytes_nat_def)
next
  case (snoc b bs)
  have "unat b < 256" using unsigned_less [of b, where 'a = nat] by simp
  with snoc have "bytes_nat bs * 256 + unat b < (Suc (bytes_nat bs)) * 256" by simp
  also from snoc have "Suc (bytes_nat bs) * 256 \<le> 256 ^ length bs * 256"
    by (intro mult_le_mono1) simp
  finally show ?case by (simp add: bytes_nat_snoc)
qed

lemma bytes_fit_words: "(256 :: nat) ^ l \<le> 2 ^ (64 * ((l + 7) div 8))"
proof -
  have "(256 :: nat) ^ l = 2 ^ (8 * l)"
    by (simp add: power_mult)
  also have "\<dots> \<le> 2 ^ (64 * ((l + 7) div 8))"
  proof (rule power_increasing)
    show "8 * l \<le> 64 * ((l + 7) div 8)" by arith
    show "(1 :: nat) \<le> 2" by simp
  qed
  finally show ?thesis .
qed

lemma bytes_nat_fits: "bytes_nat buf < 2 ^ (64 * ((length buf + 7) div 8))"
  using bytes_nat_less [of buf] bytes_fit_words [of "length buf"] by simp

lemma word_len_le: "v < 2 ^ (64 * n) \<Longrightarrow> word_len v \<le> n"
proof (induction v arbitrary: n rule: word_len.induct)
  case (1 v)
  show ?case
  proof (cases "v = 0")
    case True
    then show ?thesis by (simp add: word_len.simps)
  next
    case False
    let ?q = "v div 18446744073709551616"
    have two64: "(18446744073709551616 :: nat) = 2 ^ 64" by simp
    from False "1.prems" have "n \<noteq> 0" by (cases n) auto
    then obtain k where n: "n = Suc k" by (cases n) auto
    from "1.prems" have "v < 2 ^ 64 * 2 ^ (64 * k)"
      by (simp add: n power_add)
    then have "?q < 2 ^ (64 * k)"
      unfolding two64 by (simp add: less_mult_imp_div_less mult.commute)
    from "1.IH" [OF False this] have "word_len ?q \<le> k" .
    moreover have "word_len v = Suc (word_len ?q)"
      using False by (subst word_len.simps) simp
    ultimately show ?thesis by (simp add: n)
  qed
qed

lemma low_words:
  fixes v :: nat
  assumes "v < 2 ^ (64 * n)"
  shows "(c * 2 ^ (64 * n) + v) mod 2 ^ (64 * word_len v) = v"
proof -
  have v: "v < 2 ^ (64 * word_len v)" by (rule word_len_bound)
  from assms have "word_len v \<le> n" by (rule word_len_le)
  then have "64 * n = 64 * (n - word_len v) + 64 * word_len v" by simp
  then have "(2 :: nat) ^ (64 * n) = 2 ^ (64 * (n - word_len v)) * 2 ^ (64 * word_len v)"
    by (simp only: power_add)
  then have "c * 2 ^ (64 * n) + v = c * 2 ^ (64 * (n - word_len v)) * 2 ^ (64 * word_len v) + v"
    by (simp only: mult.assoc)
  then have "(c * 2 ^ (64 * n) + v) mod 2 ^ (64 * word_len v) = v mod 2 ^ (64 * word_len v)"
    by (simp only: mod_mult_self3)
  with v show ?thesis by simp
qed

lemma SetBytes_value:
  "Int_value (fst (SetBytes m z buf)) (snd (SetBytes m z buf)) = int (bytes_nat buf)"
proof (cases "(length buf + 7) div 8 \<le> abs_cap z")
  case True
  from low_words [OF bytes_nat_fits, of "array m (abs_array z) div 2 ^ (64 * ((length buf + 7) div 8))" buf]
  show ?thesis
    using True by (simp add: SetBytes_def Int_value_def Let_def)
next
  case False
  from low_words [OF bytes_nat_fits, of 0 buf]
  show ?thesis
    using False by (simp add: SetBytes_def Int_value_def Let_def)
qed

lemma SetBytes_frame:
  assumes "abs_array x < next_array m"
    and "abs_cap z = 0 \<or> abs_array x \<noteq> abs_array z"
  shows "Int_value (fst (SetBytes m z buf)) x = Int_value m x"
proof (cases "(length buf + 7) div 8 \<le> abs_cap z")
  case True
  show ?thesis
  proof (cases "abs_cap z = 0")
    case True
    with \<open>(length buf + 7) div 8 \<le> abs_cap z\<close> have "buf = []" by (cases buf) auto
    then show ?thesis
      by (simp add: SetBytes_def Int_value_def Let_def bytes_nat_def)
  next
    case False
    with assms(2) have "abs_array x \<noteq> abs_array z" by simp
    with True show ?thesis
      by (simp add: SetBytes_def Int_value_def Let_def)
  qed
next
  case False
  from assms(1) have "abs_array x \<noteq> next_array m" by simp
  with False show ?thesis
    by (simp add: SetBytes_def Int_value_def Let_def)
qed

lemma ComputeInputHash_eq:
  "ComputeInputHash keccak256_Hash m p
     = Inr (fst (SetBytes m (mem_InputHash p) (keccak256_Hash (spec_encoding (load m p)))),
            p\<lparr>mem_InputHash :=
                snd (SetBytes m (mem_InputHash p) (keccak256_Hash (spec_encoding (load m p))))\<rparr>)"
  by (simp add: ComputeInputHash_def binary_Write_def append_IdComms_concat
      PutUint32_big_endian spec_encoding_def load_def Let_def split: prod.splits)

lemma result_InputHash:
  "\<exists>r. ComputeInputHash_result keccak256_Hash m p = Inr r
        \<and> InputHash r = int (bytes_nat (keccak256_Hash (spec_encoding (load m p))))
        \<and> StartIndex r = StartIndex (load m p)"
  by (simp add: ComputeInputHash_result_def ComputeInputHash_eq load_def SetBytes_value)

lemma load_after:
  assumes "\<forall>x \<in> set (other_Ints p). Int_value m' x = Int_value m x"
  shows "load m' (p\<lparr>mem_InputHash := z\<rparr>) = (load m p)\<lparr>InputHash := Int_value m' z\<rparr>"
proof -
  have keep: "Int_value m' x = Int_value m x" if "x \<in> set (other_Ints p)" for x
    using assms that by blast
  have pre: "Int_value m' (mem_PreRoot p) = Int_value m (mem_PreRoot p)"
    by (rule keep) (simp add: other_Ints_def)
  have post: "Int_value m' (mem_PostRoot p) = Int_value m (mem_PostRoot p)"
    by (rule keep) (simp add: other_Ints_def)
  have ids: "map (Int_value m') (mem_IdComms p) = map (Int_value m) (mem_IdComms p)"
    by (rule map_cong [OF refl], rule keep) (simp add: other_Ints_def)
  have prs: "map (map (Int_value m')) (mem_MerkleProofs p)
               = map (map (Int_value m)) (mem_MerkleProofs p)"
  proof (rule map_cong [OF refl], rule map_cong [OF refl], rule keep)
    fix xs x assume "xs \<in> set (mem_MerkleProofs p)" "x \<in> set xs"
    then show "x \<in> set (other_Ints p)" by (auto simp: other_Ints_def)
  qed
  show ?thesis
    by (simp add: load_def pre post ids prs)
qed

lemma result_unshared:
  assumes "unshared m p"
  shows "ComputeInputHash_result keccak256_Hash m p
           = Inr ((load m p)\<lparr>InputHash :=
                    int (bytes_nat (keccak256_Hash (spec_encoding (load m p))))\<rparr>)"
proof -
  define buf where "buf = keccak256_Hash (spec_encoding (load m p))"
  have "\<forall>x \<in> set (other_Ints p).
          Int_value (fst (SetBytes m (mem_InputHash p) buf)) x = Int_value m x"
    using assms by (auto simp: unshared_def intro!: SetBytes_frame)
  from load_after [OF this, of "snd (SetBytes m (mem_InputHash p) buf)"]
  show ?thesis
    unfolding ComputeInputHash_result_def ComputeInputHash_eq buf_def [symmetric]
    by (simp add: SetBytes_value)
qed

lemma Bytes_30: "Bytes commitment_30 = [128, 0, 0, 0, 0, 0, 0, 0, 0, 0, 0, 0, 0, 0, 0, 0, 0, 0, 0, 0, 0, 0, 0, 0, 0, 0, 0, 0, 0, 7]"
  by (simp add: commitment_30_def Bytes_def nat_bytes.simps)
lemma Bytes_32: "Bytes commitment_32 = [128, 0, 0, 0, 0, 0, 0, 0, 0, 0, 0, 0, 0, 0, 0, 0, 0, 0, 0, 0, 0, 0, 0, 0, 0, 0, 0, 0, 0, 0, 0, 0]"
  by (simp add: commitment_32_def Bytes_def nat_bytes.simps)

lemma length_Bytes_30: "length (Bytes commitment_30) = 30"
  by (simp add: Bytes_30)
lemma length_Bytes_32: "length (Bytes commitment_32) = 32"
  by (simp add: Bytes_32)

lemma load_sample: "load sample_memory sample_params = shape_ok"
  by (simp add: load_def sample_memory_def sample_params_def shape_ok_def Int_value_def
      one_word_def commitment_30_def commitment_32_def)

lemma load_pre_root_shared:
  "load sample_memory pre_root_shared = shape_ok\<lparr>InputHash := 258\<rparr>"
  by (simp add: load_def sample_memory_def sample_params_def pre_root_shared_def shape_ok_def
      Int_value_def one_word_def commitment_30_def commitment_32_def)

lemma load_post_root_shared:
  "load sample_memory post_root_shared = shape_ok\<lparr>InputHash := 3\<rparr>"
  by (simp add: load_def sample_memory_def sample_params_def post_root_shared_def shape_ok_def
      Int_value_def one_word_def commitment_30_def commitment_32_def)

lemma Bytes_258: "Bytes 258 = [1, 2]"
  by (simp add: Bytes_def nat_bytes.simps)

lemma Bytes_minus_3: "Bytes (- 3) = [3]"
  by (simp add: Bytes_def nat_bytes.simps)

lemma spec_be4_5: "spec_be4 5 = [0, 0, 0, 5]"
  by (simp add: spec_be4_def)

lemma pad32_30: "pad32 commitment_30 = [0, 0] @ Bytes commitment_30"
  by (simp add: pad32_def length_Bytes_30 numeral_2_eq_2)

lemma pad32_32: "pad32 commitment_32 = Bytes commitment_32"
  by (simp add: pad32_def length_Bytes_32)

lemma encoding_shape_ok:
  "spec_encoding (shape_ok\<lparr>InputHash := h\<rparr>) = [0, 0, 0, 5, 1, 2, 3, 0, 0, 128, 0, 0, 0, 0, 0, 0, 0, 0, 0, 0, 0, 0, 0, 0, 0, 0, 0, 0, 0, 0, 0, 0, 0, 0, 0, 0, 0, 0, 7, 128, 0, 0, 0, 0, 0, 0, 0, 0, 0, 0, 0, 0, 0, 0, 0, 0, 0, 0, 0, 0, 0, 0, 0, 0, 0, 0, 0, 0, 0, 0, 0]"
  by (simp add: spec_encoding_def shape_ok_def pad32_30 pad32_32 Bytes_30 Bytes_32
      spec_be4_5 Bytes_258 Bytes_minus_3)

lemma sample_digest: "bytes_nat (sample_hash [0, 0, 0, 5, 1, 2, 3, 0, 0, 128, 0, 0, 0, 0, 0, 0, 0, 0, 0, 0, 0, 0, 0, 0, 0, 0, 0, 0, 0, 0, 0, 0, 0, 0, 0, 0, 0, 0, 7, 128, 0, 0, 0, 0, 0, 0, 0, 0, 0, 0, 0, 0, 0, 0, 0, 0, 0, 0, 0, 0, 0, 0, 0, 0, 0, 0, 0, 0, 0, 0, 0]) = 128"
  by (simp add: sample_hash_def bytes_nat_def)

lemma word_len_128: "word_len 128 = 1"
  by (simp add: word_len.simps)

text \<open>
  Claim C1. When every identity commitment has at most 32 minimal big-endian bytes,
  \<^verbatim>\<open>ComputeInputHash\<close> sets the input hash to the hash of the concatenation of the
  start index in four big-endian bytes, the minimal big-endian bytes of the pre-root and
  of the post-root, and each commitment in order left-padded with zeros to exactly 32
  bytes, the digest being read as a big-endian unsigned integer. A commitment of 30
  bytes is preceded by two zero bytes, one of 32 bytes is passed through unchanged.
\<close>

theorem ComputeInputHash_encoding:
  assumes "\<forall>v \<in> set (IdComms (load m p)). length (Bytes v) \<le> 32"
  shows "(\<exists>r. ComputeInputHash_result keccak256_Hash m p = Inr r
             \<and> InputHash r = int (bytes_nat (keccak256_Hash
                  (spec_be4 (unat (StartIndex (load m p))) @ Bytes (PreRoot (load m p))
                     @ Bytes (PostRoot (load m p))
                     @ concat (map pad32 (IdComms (load m p)))))))
         \<and> (\<forall>v \<in> set (IdComms (load m p)).
               length (pad32 v) = 32
               \<and> (length (Bytes v) = 30 \<longrightarrow> pad32 v = [0, 0] @ Bytes v)
               \<and> (length (Bytes v) = 32 \<longrightarrow> pad32 v = Bytes v))
         \<and> length (spec_be4 (unat (StartIndex (load m p)))) = 4
         \<and> bytes_nat (spec_be4 (unat (StartIndex (load m p)))) = unat (StartIndex (load m p))
         \<and> bytes_nat (keccak256_Hash (spec_encoding (load m p)))
             = (\<Sum>i < length (keccak256_Hash (spec_encoding (load m p))).
                  unat (keccak256_Hash (spec_encoding (load m p)) ! i)
                    * 256 ^ (length (keccak256_Hash (spec_encoding (load m p))) - 1 - i))"
proof -
  have enc: "\<exists>r. ComputeInputHash_result keccak256_Hash m p = Inr r
             \<and> InputHash r = int (bytes_nat (keccak256_Hash
                  (spec_be4 (unat (StartIndex (load m p))) @ Bytes (PreRoot (load m p))
                     @ Bytes (PostRoot (load m p))
                     @ concat (map pad32 (IdComms (load m p))))))"
    using result_InputHash [of keccak256_Hash m p] unfolding spec_encoding_def by blast
  have pad: "\<forall>v \<in> set (IdComms (load m p)).
               length (pad32 v) = 32
               \<and> (length (Bytes v) = 30 \<longrightarrow> pad32 v = [0, 0] @ Bytes v)
               \<and> (length (Bytes v) = 32 \<longrightarrow> pad32 v = Bytes v)"
  proof
    fix v assume "v \<in> set (IdComms (load m p))"
    with assms have le: "length (Bytes v) \<le> 32" by blast
    have two: "replicate 2 (0::byte) = [0, 0]" by (simp add: numeral_2_eq_2)
    from le two show "length (pad32 v) = 32
               \<and> (length (Bytes v) = 30 \<longrightarrow> pad32 v = [0, 0] @ Bytes v)
               \<and> (length (Bytes v) = 32 \<longrightarrow> pad32 v = Bytes v)"
      by (simp add: pad32_def)
  qed
  have len: "length (spec_be4 (unat (StartIndex (load m p)))) = 4"
    by (simp add: spec_be4_def)
  have be: "bytes_nat (spec_be4 (unat (StartIndex (load m p)))) = unat (StartIndex (load m p))"
    by (rule bytes_nat_spec_be4)
  have dig: "bytes_nat (keccak256_Hash (spec_encoding (load m p)))
             = (\<Sum>i < length (keccak256_Hash (spec_encoding (load m p))).
                  unat (keccak256_Hash (spec_encoding (load m p)) ! i)
                    * 256 ^ (length (keccak256_Hash (spec_encoding (load m p))) - 1 - i))"
    by (rule bytes_nat_big_endian)
  from enc pad len be dig show ?thesis by (intro conjI)
qed

lemma sample_encoding_digest:
  "bytes_nat (sample_hash (spec_encoding (shape_ok\<lparr>InputHash := h\<rparr>))) = 128"
  by (simp only: encoding_shape_ok sample_digest)

lemma shape_ok_update: "shape_ok\<lparr>InputHash := 0\<rparr> = shape_ok"
  by (simp add: shape_ok_def)

theorem ComputeInputHash_encoding_witness:
  "IdComms (load sample_memory sample_params) = [commitment_30, commitment_32]
   \<and> length (Bytes commitment_30) = 30
   \<and> length (Bytes commitment_32) = 32
   \<and> pad32 commitment_30 = [0, 0] @ Bytes commitment_30
   \<and> pad32 commitment_32 = Bytes commitment_32
   \<and> length (pad32 commitment_30) = 32
   \<and> spec_encoding (load sample_memory sample_params) = [0, 0, 0, 5, 1, 2, 3, 0, 0, 128, 0, 0, 0, 0, 0, 0, 0, 0, 0, 0, 0, 0, 0, 0, 0, 0, 0, 0, 0, 0, 0, 0, 0, 0, 0, 0, 0, 0, 7, 128, 0, 0, 0, 0, 0, 0, 0, 0, 0, 0, 0, 0, 0, 0, 0, 0, 0, 0, 0, 0, 0, 0, 0, 0, 0, 0, 0, 0, 0, 0, 0]
   \<and> (\<exists>r. ComputeInputHash_result sample_hash sample_memory sample_params = Inr r
          \<and> InputHash r = 128)"
proof -
  have ids: "IdComms (load sample_memory sample_params) = [commitment_30, commitment_32]"
    by (simp add: load_sample shape_ok_def)
  have hyp: "\<forall>v \<in> set (IdComms (load sample_memory sample_params)). length (Bytes v) \<le> 32"
    by (simp add: ids length_Bytes_30 length_Bytes_32)
  note t = ComputeInputHash_encoding [OF hyp, of sample_hash]
  from t [THEN conjunct2, THEN conjunct1]
  have pads: "pad32 commitment_30 = [0, 0] @ Bytes commitment_30
              \<and> pad32 commitment_32 = Bytes commitment_32
              \<and> length (pad32 commitment_30) = 32"
    by (simp add: ids length_Bytes_30 length_Bytes_32)
  have e: "spec_encoding (load sample_memory sample_params) = [0, 0, 0, 5, 1, 2, 3, 0, 0, 128, 0, 0, 0, 0, 0, 0, 0, 0, 0, 0, 0, 0, 0, 0, 0, 0, 0, 0, 0, 0, 0, 0, 0, 0, 0, 0, 0, 0, 7, 128, 0, 0, 0, 0, 0, 0, 0, 0, 0, 0, 0, 0, 0, 0, 0, 0, 0, 0, 0, 0, 0, 0, 0, 0, 0, 0, 0, 0, 0, 0, 0]"
    using encoding_shape_ok [of 0] by (simp only: load_sample shape_ok_update)
  from t [THEN conjunct1]
  have run: "\<exists>r. ComputeInputHash_result sample_hash sample_memory sample_params = Inr r
          \<and> InputHash r = 128"
    unfolding spec_encoding_def [symmetric] e sample_digest by simp
  from ids length_Bytes_30 length_Bytes_32 pads e run show ?thesis by (intro conjI) simp_all
qed

text \<open>
  Claim C9. \<^verbatim>\<open>ComputeInputHash\<close> never fails: it returns a result for every parameter
  bundle, since writing the start index to the in-memory buffer returns no error.
\<close>

theorem ComputeInputHash_never_fails:
  "(\<exists>r. ComputeInputHash keccak256_Hash m p = Inr r)
   \<and> (\<forall>err. ComputeInputHash keccak256_Hash m p \<noteq> Inl err)
   \<and> (\<forall>err. binary_Write [] (mem_StartIndex p) \<noteq> Inl err)"
  by (simp add: ComputeInputHash_eq binary_Write_def)

theorem ComputeInputHash_never_fails_witness:
  "\<exists>r. ComputeInputHash sample_hash sample_memory sample_params = Inr r"
  using ComputeInputHash_never_fails [of sample_hash sample_memory sample_params] by simp

lemma unshared_sample: "unshared sample_memory sample_params"
  by (simp add: unshared_def other_Ints_def sample_memory_def sample_params_def one_word_def)

lemma sample_hash_length: "length (sample_hash data) = 32"
  by (simp add: sample_hash_def)

lemma SetBytes_reuse:
  assumes "(length buf + 7) div 8 \<le> abs_cap z"
  shows "SetBytes m z buf =
     (m\<lparr>array := (array m)
           (abs_array z := array m (abs_array z) div 2 ^ (64 * ((length buf + 7) div 8))
                             * 2 ^ (64 * ((length buf + 7) div 8)) + bytes_nat buf)\<rparr>,
      z\<lparr>neg := False, abs_len := word_len (bytes_nat buf)\<rparr>)"
  using assms by (simp add: SetBytes_def Let_def)

lemma result_pre_root_shared:
  "ComputeInputHash_result sample_hash sample_memory pre_root_shared
     = Inr (shape_ok\<lparr>InputHash := 128, PreRoot := 128\<rparr>)"
proof -
  have cap: "(length (sample_hash data) + 7) div 8 \<le> abs_cap (mem_InputHash pre_root_shared)"
    for data
    by (simp add: sample_hash_length pre_root_shared_def)
  show ?thesis
    unfolding ComputeInputHash_result_def ComputeInputHash_eq load_pre_root_shared
      SetBytes_reuse [OF cap] sample_encoding_digest sample_hash_length word_len_128
    by (simp add: load_def pre_root_shared_def sample_params_def sample_memory_def shape_ok_def
        Int_value_def one_word_def commitment_30_def commitment_32_def)
qed

lemma result_post_root_shared:
  "ComputeInputHash_result sample_hash sample_memory post_root_shared
     = Inr (shape_ok\<lparr>InputHash := 128, PostRoot := - 128\<rparr>)"
proof -
  have cap: "(length (sample_hash data) + 7) div 8 \<le> abs_cap (mem_InputHash post_root_shared)"
    for data
    by (simp add: sample_hash_length post_root_shared_def)
  show ?thesis
    unfolding ComputeInputHash_result_def ComputeInputHash_eq load_post_root_shared
      SetBytes_reuse [OF cap] sample_encoding_digest sample_hash_length word_len_128
    by (simp add: load_def post_root_shared_def sample_params_def sample_memory_def shape_ok_def
        Int_value_def one_word_def commitment_30_def commitment_32_def)
qed

text \<open>
  Whatever the hash function, as long as its digest has 32 bytes: with the pre-root
  sharing the array of the input hash, the pre-root reads the low 64-bit word of the
  digest after the call.
\<close>

lemma shared_pre_root_low_word:
  assumes "length (keccak256_Hash (spec_encoding (load sample_memory pre_root_shared))) = 32"
  shows "\<exists>r. ComputeInputHash_result keccak256_Hash sample_memory pre_root_shared = Inr r
           \<and> PreRoot r
               = int (bytes_nat (keccak256_Hash
                        (spec_encoding (load sample_memory pre_root_shared))) mod 2 ^ 64)"
proof -
  define buf where "buf = keccak256_Hash (spec_encoding (load sample_memory pre_root_shared))"
  from assms have len: "length buf = 32" by (simp add: buf_def)
  then have cap: "(length buf + 7) div 8 \<le> abs_cap (mem_InputHash pre_root_shared)"
    by (simp add: pre_root_shared_def)
  have "Int_value (fst (SetBytes sample_memory (mem_InputHash pre_root_shared) buf))
          (mem_PreRoot pre_root_shared) = int (bytes_nat buf mod 2 ^ 64)"
    unfolding SetBytes_reuse [OF cap] len
    by (simp add: Int_value_def pre_root_shared_def sample_memory_def)
  then show ?thesis
    unfolding ComputeInputHash_result_def ComputeInputHash_eq buf_def [symmetric]
    by (simp add: load_def)
qed

text \<open>
  Claim C10, as stated, fails: \<^verbatim>\<open>ComputeInputHash\<close> does not leave every other field
  unchanged. When the pre-root is a copy of the \<^verbatim>\<open>big.Int\<close> of the input hash, so that
  both point to one word array with room for the digest, \<^verbatim>\<open>SetBytes\<close> writes the digest
  into that array and the pre-root reads 128 after the call where it read 258 before.
\<close>

theorem ComputeInputHash_frame_counterexample:
  "PreRoot (load sample_memory pre_root_shared) = 258
   \<and> ComputeInputHash_result sample_hash sample_memory pre_root_shared
       = Inr (shape_ok\<lparr>InputHash := 128, PreRoot := 128\<rparr>)"
  by (simp add: result_pre_root_shared load_pre_root_shared shape_ok_def)

text \<open>
  Claim C10, amended. \<^verbatim>\<open>ComputeInputHash\<close> writes the computed digest into the input
  hash of its receiver; when no other \<^verbatim>\<open>big.Int\<close> of the parameters shares the word
  array of the input hash, it leaves every other field (start index, pre-root, post-root,
  identity commitments, Merkle proofs) unchanged.
\<close>

theorem ComputeInputHash_frame:
  "(\<exists>r. ComputeInputHash_result keccak256_Hash m p = Inr r
        \<and> InputHash r = int (bytes_nat (keccak256_Hash (spec_encoding (load m p)))))
   \<and> (unshared m p \<longrightarrow>
        ComputeInputHash_result keccak256_Hash m p
          = Inr ((load m p)\<lparr>InputHash :=
                   int (bytes_nat (keccak256_Hash (spec_encoding (load m p))))\<rparr>))"
  using result_InputHash [of keccak256_Hash m p] result_unshared [of m p keccak256_Hash]
  by blast

theorem ComputeInputHash_frame_witness:
  "unshared sample_memory sample_params
   \<and> load sample_memory sample_params = shape_ok
   \<and> ComputeInputHash_result sample_hash sample_memory sample_params
       = Inr (shape_ok\<lparr>InputHash := 128\<rparr>)"
proof -
  from ComputeInputHash_frame [of sample_hash sample_memory sample_params, THEN conjunct2]
    unshared_sample
  have "ComputeInputHash_result sample_hash sample_memory sample_params
          = Inr ((load sample_memory sample_params)\<lparr>InputHash :=
              int (bytes_nat (sample_hash (spec_encoding (load sample_memory sample_params))))\<rparr>)"
    by blast
  then have "ComputeInputHash_result sample_hash sample_memory sample_params
       = Inr (shape_ok\<lparr>InputHash := 128\<rparr>)"
    using sample_encoding_digest [of 0] by (simp add: load_sample shape_ok_update)
  with unshared_sample load_sample show ?thesis by simp
qed

text \<open>
  Claim C6, as stated, fails in its second half: the computation can have an effect
  other than producing the hash. With the post-root sharing the word array of the input
  hash, the post-root reads \<open>- 128\<close> after the call where it read \<open>- 3\<close> before.
\<close>

theorem ComputeInputHash_purity_counterexample:
  "PostRoot (load sample_memory post_root_shared) = - 3
   \<and> ComputeInputHash_result sample_hash sample_memory post_root_shared
       = Inr (shape_ok\<lparr>InputHash := 128, PostRoot := - 128\<rparr>)"
  by (simp add: result_post_root_shared load_post_root_shared shape_ok_def)

text \<open>
  Claim C6, amended. \<^verbatim>\<open>ComputeInputHash\<close> is deterministic: for two parameter bundles,
  in whatever memory, with the same start index, pre-root, post-root and identity
  commitments the computed input hash is the same; and when no other \<^verbatim>\<open>big.Int\<close> of the
  parameters shares the word array of the input hash, the computation changes nothing
  of the parameters but the input hash.
\<close>

theorem ComputeInputHash_deterministic:
  assumes "StartIndex (load m p) = StartIndex (load n q)"
    and "PreRoot (load m p) = PreRoot (load n q)"
    and "PostRoot (load m p) = PostRoot (load n q)"
    and "IdComms (load m p) = IdComms (load n q)"
  shows "\<exists>d. (\<exists>r. ComputeInputHash_result keccak256_Hash m p = Inr r \<and> InputHash r = d)
           \<and> (\<exists>r. ComputeInputHash_result keccak256_Hash n q = Inr r \<and> InputHash r = d)
           \<and> (unshared m p \<longrightarrow>
                ComputeInputHash_result keccak256_Hash m p = Inr ((load m p)\<lparr>InputHash := d\<rparr>))
           \<and> (unshared n q \<longrightarrow>
                ComputeInputHash_result keccak256_Hash n q = Inr ((load n q)\<lparr>InputHash := d\<rparr>))"
proof -
  from assms have same: "spec_encoding (load m p) = spec_encoding (load n q)"
    by (simp add: spec_encoding_def)
  let ?d = "int (bytes_nat (keccak256_Hash (spec_encoding (load m p))))"
  have 1: "\<exists>r. ComputeInputHash_result keccak256_Hash m p = Inr r \<and> InputHash r = ?d"
    using result_InputHash [of keccak256_Hash m p] by blast
  have 2: "\<exists>r. ComputeInputHash_result keccak256_Hash n q = Inr r \<and> InputHash r = ?d"
    using result_InputHash [of keccak256_Hash n q] unfolding same by blast
  have 3: "unshared m p \<longrightarrow>
             ComputeInputHash_result keccak256_Hash m p = Inr ((load m p)\<lparr>InputHash := ?d\<rparr>)"
    using result_unshared [of m p keccak256_Hash] by blast
  have 4: "unshared n q \<longrightarrow>
             ComputeInputHash_result keccak256_Hash n q = Inr ((load n q)\<lparr>InputHash := ?d\<rparr>)"
    using result_unshared [of n q keccak256_Hash] unfolding same by blast
  from 1 2 3 4 show ?thesis by blast
qed

theorem ComputeInputHash_deterministic_witness:
  "StartIndex (load sample_memory sample_params) = StartIndex (load sample_memory pre_root_shared)
   \<and> PreRoot (load sample_memory sample_params) = PreRoot (load sample_memory pre_root_shared)
   \<and> PostRoot (load sample_memory sample_params) = PostRoot (load sample_memory pre_root_shared)
   \<and> IdComms (load sample_memory sample_params) = IdComms (load sample_memory pre_root_shared)
   \<and> InputHash (load sample_memory sample_params)
       \<noteq> InputHash (load sample_memory pre_root_shared)
   \<and> unshared sample_memory sample_params
   \<and> (\<exists>d. (\<exists>r. ComputeInputHash_result sample_hash sample_memory sample_params = Inr r
                \<and> InputHash r = d)
          \<and> (\<exists>r. ComputeInputHash_result sample_hash sample_memory pre_root_shared = Inr r
                \<and> InputHash r = d)
          \<and> ComputeInputHash_result sample_hash sample_memory sample_params
              = Inr (shape_ok\<lparr>InputHash := d\<rparr>))"
proof -
  have eqs: "StartIndex (load sample_memory sample_params)
               = StartIndex (load sample_memory pre_root_shared)"
    "PreRoot (load sample_memory sample_params) = PreRoot (load sample_memory pre_root_shared)"
    "PostRoot (load sample_memory sample_params) = PostRoot (load sample_memory pre_root_shared)"
    "IdComms (load sample_memory sample_params) = IdComms (load sample_memory pre_root_shared)"
    by (simp_all add: load_sample load_pre_root_shared)
  have ne: "InputHash (load sample_memory sample_params)
              \<noteq> InputHash (load sample_memory pre_root_shared)"
    by (simp add: load_sample load_pre_root_shared shape_ok_def)
  from ComputeInputHash_deterministic [OF eqs, of sample_hash] unshared_sample
  have "\<exists>d. (\<exists>r. ComputeInputHash_result sample_hash sample_memory sample_params = Inr r
                \<and> InputHash r = d)
          \<and> (\<exists>r. ComputeInputHash_result sample_hash sample_memory pre_root_shared = Inr r
                \<and> InputHash r = d)
          \<and> ComputeInputHash_result sample_hash sample_memory sample_params
              = Inr (shape_ok\<lparr>InputHash := d\<rparr>)"
    by (simp add: load_sample, blast)
  with eqs ne unshared_sample show ?thesis by (intro conjI)
qed

section \<open>Shape validation\<close>

lemma check_proofs_ok:
  "check_proofs td i ps = Inr () \<longleftrightarrow> (\<forall>k < length ps. length (ps ! k) = td)"
proof (induction ps arbitrary: i)
  case Nil
  show ?case by simp
next
  case (Cons q qs)
  show ?case
    by (simp add: Cons.IH All_less_Suc2)
qed

lemma check_proofs_first:
  assumes "k < length ps" and "length (ps ! k) \<noteq> td"
    and "\<forall>j < k. length (ps ! j) = td"
  shows "check_proofs td i ps = Inl (WrongSizeOfMerkleProof (i + k) (length (ps ! k)))"
  using assms
proof (induction ps arbitrary: i k)
  case Nil
  then show ?case by simp
next
  case (Cons q qs)
  show ?case
  proof (cases k)
    case 0
    with Cons.prems show ?thesis by simp
  next
    case (Suc m)
    from Cons.prems(3) Suc have q: "length q = td" by fastforce
    from Cons.prems Suc have m: "m < length qs" "length (qs ! m) \<noteq> td" by simp_all
    from Cons.prems(3) Suc have "\<forall>j < m. length (qs ! j) = td" by fastforce
    from Cons.IH [OF m this, of "Suc i"] q Suc show ?thesis by simp
  qed
qed

text \<open>
  Claim C3. \<^verbatim>\<open>ValidateShape\<close> succeeds exactly when the number of identity commitments
  and the number of Merkle proofs equal the batch size and every Merkle proof has the
  tree depth as its length; otherwise it returns an error. The checks run in that order
  and the first violated one decides the error: the observed number of commitments, else
  the observed number of proofs, else the index of the first proof of the wrong size
  together with that proof's length.
\<close>

theorem ValidateShape_checks:
  "(ValidateShape p treeDepth batchSize = Inr () \<longleftrightarrow>
      \<not> (length (IdComms p) \<noteq> unat batchSize
         \<or> length (MerkleProofs p) \<noteq> unat batchSize
         \<or> (\<exists>i < length (MerkleProofs p). length (MerkleProofs p ! i) \<noteq> unat treeDepth)))
   \<and> ((\<exists>err. ValidateShape p treeDepth batchSize = Inl err) \<longleftrightarrow>
      (length (IdComms p) \<noteq> unat batchSize
         \<or> length (MerkleProofs p) \<noteq> unat batchSize
         \<or> (\<exists>i < length (MerkleProofs p). length (MerkleProofs p ! i) \<noteq> unat treeDepth)))
   \<and> (length (IdComms p) \<noteq> unat batchSize \<longrightarrow>
        ValidateShape p treeDepth batchSize = Inl (WrongNumberOfIdComms (length (IdComms p))))
   \<and> (length (IdComms p) = unat batchSize \<and> length (MerkleProofs p) \<noteq> unat batchSize \<longrightarrow>
        ValidateShape p treeDepth batchSize
          = Inl (WrongNumberOfMerkleProofs (length (MerkleProofs p))))
   \<and> (\<forall>i. length (IdComms p) = unat batchSize \<and> length (MerkleProofs p) = unat batchSize
          \<and> i < length (MerkleProofs p) \<and> length (MerkleProofs p ! i) \<noteq> unat treeDepth
          \<and> (\<forall>j < i. length (MerkleProofs p ! j) = unat treeDepth) \<longrightarrow>
        ValidateShape p treeDepth batchSize
          = Inl (WrongSizeOfMerkleProof i (length (MerkleProofs p ! i))))"
proof -
  let ?ok = "\<not> (length (IdComms p) \<noteq> unat batchSize
         \<or> length (MerkleProofs p) \<noteq> unat batchSize
         \<or> (\<exists>i < length (MerkleProofs p). length (MerkleProofs p ! i) \<noteq> unat treeDepth))"
  have ok: "ValidateShape p treeDepth batchSize = Inr () \<longleftrightarrow> ?ok"
    by (auto simp: ValidateShape_def check_proofs_ok)
  have err: "(\<exists>err. ValidateShape p treeDepth batchSize = Inl err) \<longleftrightarrow> \<not> ?ok"
  proof -
    have "(\<exists>err. ValidateShape p treeDepth batchSize = Inl err)
            \<longleftrightarrow> ValidateShape p treeDepth batchSize \<noteq> Inr ()"
      by (cases "ValidateShape p treeDepth batchSize") auto
    with ok show ?thesis by simp
  qed
  have c1: "length (IdComms p) \<noteq> unat batchSize \<longrightarrow>
        ValidateShape p treeDepth batchSize = Inl (WrongNumberOfIdComms (length (IdComms p)))"
    by (simp add: ValidateShape_def)
  have c2: "length (IdComms p) = unat batchSize \<and> length (MerkleProofs p) \<noteq> unat batchSize \<longrightarrow>
        ValidateShape p treeDepth batchSize
          = Inl (WrongNumberOfMerkleProofs (length (MerkleProofs p)))"
    by (simp add: ValidateShape_def)
  have c3: "\<forall>i. length (IdComms p) = unat batchSize \<and> length (MerkleProofs p) = unat batchSize
          \<and> i < length (MerkleProofs p) \<and> length (MerkleProofs p ! i) \<noteq> unat treeDepth
          \<and> (\<forall>j < i. length (MerkleProofs p ! j) = unat treeDepth) \<longrightarrow>
        ValidateShape p treeDepth batchSize
          = Inl (WrongSizeOfMerkleProof i (length (MerkleProofs p ! i)))"
  proof (intro allI impI)
    fix i
    assume a: "length (IdComms p) = unat batchSize \<and> length (MerkleProofs p) = unat batchSize
          \<and> i < length (MerkleProofs p) \<and> length (MerkleProofs p ! i) \<noteq> unat treeDepth
          \<and> (\<forall>j < i. length (MerkleProofs p ! j) = unat treeDepth)"
    then have "check_proofs (unat treeDepth) 0 (MerkleProofs p)
                 = Inl (WrongSizeOfMerkleProof (0 + i) (length (MerkleProofs p ! i)))"
      by (intro check_proofs_first) simp_all
    with a show "ValidateShape p treeDepth batchSize
          = Inl (WrongSizeOfMerkleProof i (length (MerkleProofs p ! i)))"
      by (simp add: ValidateShape_def)
  qed
  from ok err c1 c2 c3 show ?thesis by blast
qed

theorem ValidateShape_checks_witness:
  "length (IdComms shape_ok) \<noteq> unat (1 :: uint32)
   \<and> ValidateShape shape_ok 3 1 = Inl (WrongNumberOfIdComms 2)
   \<and> length (IdComms shape_ok) = unat (2 :: uint32)
   \<and> length (MerkleProofs (shape_ok\<lparr>MerkleProofs := [[1, 2, 3]]\<rparr>)) \<noteq> unat (2 :: uint32)
   \<and> ValidateShape (shape_ok\<lparr>MerkleProofs := [[1, 2, 3]]\<rparr>) 3 2
       = Inl (WrongNumberOfMerkleProofs 1)
   \<and> length (IdComms shape_short_proof) = unat (2 :: uint32)
   \<and> length (MerkleProofs shape_short_proof) = unat (2 :: uint32)
   \<and> 1 < length (MerkleProofs shape_short_proof)
   \<and> length (MerkleProofs shape_short_proof ! 1) \<noteq> unat (3 :: uint32)
   \<and> length (MerkleProofs shape_short_proof ! 0) = unat (3 :: uint32)
   \<and> ValidateShape shape_short_proof 3 2 = Inl (WrongSizeOfMerkleProof 1 2)
   \<and> ValidateShape shape_ok 3 2 = Inr ()"
  using ValidateShape_checks [of shape_ok 3 2] ValidateShape_checks [of shape_ok 3 1]
    ValidateShape_checks [of "shape_ok\<lparr>MerkleProofs := [[1, 2, 3]]\<rparr>" 3 2]
    ValidateShape_checks [of shape_short_proof 3 2]
  by (simp add: shape_ok_def shape_short_proof_def ValidateShape_def)

section \<open>Proving and verifying\<close>

lemma map_index: "map (\<lambda>i. f (xs ! i)) [0 ..< length xs] = map f xs"
  by (rule nth_equalityI) simp_all

lemma map_index2:
  assumes "\<forall>k < length xss. length (xss ! k) = n"
  shows "map (\<lambda>i. map (\<lambda>j. f (xss ! i ! j)) [0 ..< n]) [0 ..< length xss] = map (map f) xss"
proof (rule nth_equalityI)
  show "length (map (\<lambda>i. map (\<lambda>j. f (xss ! i ! j)) [0 ..< n]) [0 ..< length xss])
          = length (map (map f) xss)"
    by simp
next
  fix i
  assume "i < length (map (\<lambda>i. map (\<lambda>j. f (xss ! i ! j)) [0 ..< n]) [0 ..< length xss])"
  then have i: "i < length xss" by simp
  with assms have "length (xss ! i) = n" by blast
  then have "map (\<lambda>j. f (xss ! i ! j)) [0 ..< n] = map f (xss ! i)"
    using map_index [of f "xss ! i"] by simp
  with i show "map (\<lambda>i. map (\<lambda>j. f (xss ! i ! j)) [0 ..< n]) [0 ..< length xss] ! i
                 = map (map f) xss ! i"
    by simp
qed

lemma ValidateShape_ok_lengths:
  assumes "ValidateShape params treeDepth batchSize = Inr ()"
  shows "length (IdComms params) = unat batchSize"
    and "length (MerkleProofs params) = unat batchSize"
    and "\<forall>k < length (MerkleProofs params). length (MerkleProofs params ! k) = unat treeDepth"
  using assms by (auto simp: ValidateShape_def check_proofs_ok split: if_splits)

lemma Prove_shape_error:
  "ValidateShape params (TreeDepth ps) (BatchSize ps) = Inl err
     \<Longrightarrow> Prove backend ps params = (Inl err, [])"
  by (simp add: Prove_def)

lemma Prove_shape_ok:
  assumes "ValidateShape params (TreeDepth ps) (BatchSize ps) = Inr ()"
  shows "Prove backend ps params =
     (case frontend_NewWitness backend (complete_assignment params) False of
        Inl err \<Rightarrow> (Inl err, [CallNewWitness (complete_assignment params) False])
      | Inr witness \<Rightarrow>
          (case groth16_Prove backend (ConstraintSystem ps) (ProvingKey ps) witness of
             Inl err \<Rightarrow>
               (Inl err, [CallNewWitness (complete_assignment params) False,
                          LogInfo ''generating proof'', CallGroth16Prove])
           | Inr proof \<Rightarrow>
               (Inr (Proof proof),
                [CallNewWitness (complete_assignment params) False,
                 LogInfo ''generating proof'', CallGroth16Prove,
                 LogInfo ''proof generated successfully''])))"
proof -
  note len = ValidateShape_ok_lengths [OF assms]
  have ids: "map (\<lambda>i. BigInt (IdComms params ! i)) [0 ..< unat (BatchSize ps)]
               = map BigInt (IdComms params)"
    using map_index [of BigInt "IdComms params"] by (simp add: len(1))
  have prs: "map (\<lambda>i. map (\<lambda>j. BigInt (MerkleProofs params ! i ! j)) [0 ..< unat (TreeDepth ps)])
               [0 ..< unat (BatchSize ps)] = map (map BigInt) (MerkleProofs params)"
    using map_index2 [OF len(3), of BigInt] by (simp add: len(2))
  show ?thesis
    unfolding Prove_def Let_def ids prs
    by (simp add: assms complete_assignment_def split: sum.splits)
qed

text \<open>
  Claim C4. When the shape of the parameters does not match the tree depth and batch size
  of the proving system, \<^verbatim>\<open>Prove\<close> returns the error of \<^verbatim>\<open>ValidateShape\<close> and does
  nothing else: no witness is built and the backend is not called. When the shape matches,
  \<^verbatim>\<open>Prove\<close> builds the complete assignment from the input hash, the start index, the
  two roots, the commitments and the Merkle proofs, has the backend build the witness and
  then the proof, and returns the backend's error when either step fails.
\<close>

theorem Prove_validates_first:
  "(\<forall>err. ValidateShape params (TreeDepth ps) (BatchSize ps) = Inl err \<longrightarrow>
      Prove backend ps params = (Inl err, []))
   \<and> (ValidateShape params (TreeDepth ps) (BatchSize ps) = Inr () \<longrightarrow>
      Prove backend ps params =
        (case frontend_NewWitness backend (complete_assignment params) False of
           Inl err \<Rightarrow> (Inl err, [CallNewWitness (complete_assignment params) False])
         | Inr witness \<Rightarrow>
             (case groth16_Prove backend (ConstraintSystem ps) (ProvingKey ps) witness of
                Inl err \<Rightarrow>
                  (Inl err, [CallNewWitness (complete_assignment params) False,
                             LogInfo ''generating proof'', CallGroth16Prove])
              | Inr proof \<Rightarrow>
                  (Inr (Proof proof),
                   [CallNewWitness (complete_assignment params) False,
                    LogInfo ''generating proof'', CallGroth16Prove,
                    LogInfo ''proof generated successfully'']))))"
  using Prove_shape_error [of params ps _ backend] Prove_shape_ok [of params ps backend]
  by blast

lemma Verify_eq:
  "Verify backend ps inputHash proof =
     (case frontend_NewWitness backend
             (hash_only_assignment (unat (BatchSize ps)) inputHash) True of
        Inl err \<Rightarrow>
          (Inl err,
           [CallNewWitness (hash_only_assignment (unat (BatchSize ps)) inputHash) True])
      | Inr witness \<Rightarrow>
          (case proof of Proof prf \<Rightarrow>
             (groth16_Verify backend prf (VerifyingKey ps) witness,
              [CallNewWitness (hash_only_assignment (unat (BatchSize ps)) inputHash) True,
               CallGroth16Verify])))"
  by (simp add: Verify_def hash_only_assignment_def Let_def split: sum.splits Proof.splits)

lemma supplied_hash_only: "supplied (hash_only_assignment n inputHash) = [BigInt inputHash]"
  by (simp add: supplied_def hash_only_assignment_def)


lemma Verify_result:
  assumes "public_input_is_hash backend"
  shows "fst (Verify backend ps inputHash proof) =
     (case frontend_NewWitness backend (hash_only_assignment 0 inputHash) True of
        Inl err \<Rightarrow> Inl err
      | Inr witness \<Rightarrow>
          (case proof of Proof prf \<Rightarrow> groth16_Verify backend prf (VerifyingKey ps) witness))"
proof -
  have "circuit_InputHash (hash_only_assignment (unat (BatchSize ps)) inputHash)
          = circuit_InputHash (hash_only_assignment 0 inputHash)"
    by (simp add: hash_only_assignment_def)
  with assms have "frontend_NewWitness backend
                     (hash_only_assignment (unat (BatchSize ps)) inputHash) True
                   = frontend_NewWitness backend (hash_only_assignment 0 inputHash) True"
    unfolding public_input_is_hash_def by blast
  then show ?thesis
    unfolding Verify_eq by (simp split: sum.splits Proof.splits)
qed

text \<open>
  Claim C5. \<^verbatim>\<open>Verify\<close> builds a public-only witness from an assignment whose only
  supplied value is the given input hash: the start index and the roots are absent, there
  are no Merkle proofs, and the commitments are a slice of absent entries. It then has
  the backend verify the proof against the stored verifying key. Since the input hash is
  the only public input of the circuit, so that the public-only witness is made from the
  input hash alone, the result is fixed by the input hash, the proof and the stored
  verifying key, and nothing else of the proving system or of the parameters enters.
\<close>

theorem Verify_public_only:
  "Verify backend ps inputHash proof =
     (case frontend_NewWitness backend
             (hash_only_assignment (unat (BatchSize ps)) inputHash) True of
        Inl err \<Rightarrow>
          (Inl err,
           [CallNewWitness (hash_only_assignment (unat (BatchSize ps)) inputHash) True])
      | Inr witness \<Rightarrow>
          (case proof of Proof prf \<Rightarrow>
             (groth16_Verify backend prf (VerifyingKey ps) witness,
              [CallNewWitness (hash_only_assignment (unat (BatchSize ps)) inputHash) True,
               CallGroth16Verify])))
   \<and> supplied (hash_only_assignment (unat (BatchSize ps)) inputHash) = [BigInt inputHash]
   \<and> (public_input_is_hash backend \<longrightarrow>
        fst (Verify backend ps inputHash proof) =
          (case frontend_NewWitness backend (hash_only_assignment 0 inputHash) True of
             Inl err \<Rightarrow> Inl err
           | Inr witness \<Rightarrow>
               (case proof of Proof prf \<Rightarrow>
                  groth16_Verify backend prf (VerifyingKey ps) witness)))
   \<and> (public_input_is_hash backend \<longrightarrow>
        (\<forall>ps' :: ('pk, 'vk, 'cs) ProvingSystem.
           VerifyingKey ps' = VerifyingKey ps \<longrightarrow>
           fst (Verify backend ps' inputHash proof) = fst (Verify backend ps inputHash proof)))"
proof -
  have dep: "public_input_is_hash backend \<longrightarrow>
        (\<forall>ps' :: ('pk, 'vk, 'cs) ProvingSystem.
           VerifyingKey ps' = VerifyingKey ps \<longrightarrow>
           fst (Verify backend ps' inputHash proof) = fst (Verify backend ps inputHash proof))"
  proof (intro allI impI)
    fix ps' :: "('pk, 'vk, 'cs) ProvingSystem"
    assume h: "public_input_is_hash backend" and v: "VerifyingKey ps' = VerifyingKey ps"
    show "fst (Verify backend ps' inputHash proof) = fst (Verify backend ps inputHash proof)"
      unfolding Verify_result [OF h] v ..
  qed
  have res: "public_input_is_hash backend \<longrightarrow>
        fst (Verify backend ps inputHash proof) =
          (case frontend_NewWitness backend (hash_only_assignment 0 inputHash) True of
             Inl err \<Rightarrow> Inl err
           | Inr witness \<Rightarrow>
               (case proof of Proof prf \<Rightarrow>
                  groth16_Verify backend prf (VerifyingKey ps) witness))"
    using Verify_result [of backend ps inputHash "proof"] by blast
  from Verify_eq [of backend ps inputHash "proof"] supplied_hash_only res dep
  show ?thesis by (intro conjI)
qed

lemma sample_public_input: "public_input_is_hash sample_backend"
  by (simp add: public_input_is_hash_def sample_backend_def split: Variable.splits)

lemma sample_public_witness:
  "frontend_NewWitness sample_backend (hash_only_assignment n h) True
     = Inr (hash_only_assignment 0 h)"
  by (simp add: sample_backend_def hash_only_assignment_def)

lemma sample_verify:
  "groth16_Verify sample_backend 11 9 (hash_only_assignment 0 h)
     = (if h = 2 then Inr () else Inl (LibraryError ''pairing check failed''))"
  by (simp add: sample_backend_def hash_only_assignment_def)

lemma sample_system_fields:
  "unat (BatchSize sample_system) = 2" "VerifyingKey sample_system = 9"
  by (simp_all add: sample_system_def)

theorem Verify_public_only_witness:
  "public_input_is_hash sample_backend
   \<and> VerifyingKey other_system = VerifyingKey sample_system
   \<and> BatchSize other_system \<noteq> BatchSize sample_system
   \<and> TreeDepth other_system \<noteq> TreeDepth sample_system
   \<and> fst (Verify sample_backend other_system 2 (Proof 11))
       = fst (Verify sample_backend sample_system 2 (Proof 11))
   \<and> Verify sample_backend sample_system 2 (Proof 11)
       = (Inr (), [CallNewWitness (hash_only_assignment 2 2) True, CallGroth16Verify])
   \<and> fst (Verify sample_backend sample_system 3 (Proof 11))
       = Inl (LibraryError ''pairing check failed'')
   \<and> supplied (hash_only_assignment 2 2) = [BigInt 2]"
proof -
  note t = Verify_public_only [of sample_backend sample_system 2 "Proof 11"]
  have key: "VerifyingKey other_system = VerifyingKey sample_system"
    by (simp add: other_system_def sample_system_def)
  have batch: "BatchSize other_system \<noteq> BatchSize sample_system"
    by (simp add: other_system_def sample_system_def)
  have depth: "TreeDepth other_system \<noteq> TreeDepth sample_system"
    by (simp add: other_system_def sample_system_def)
  from t [THEN conjunct2, THEN conjunct2, THEN conjunct2] sample_public_input key
  have same: "fst (Verify sample_backend other_system 2 (Proof 11))
       = fst (Verify sample_backend sample_system 2 (Proof 11))"
    by blast
  from t [THEN conjunct1]
  have run: "Verify sample_backend sample_system 2 (Proof 11)
       = (Inr (), [CallNewWitness (hash_only_assignment 2 2) True, CallGroth16Verify])"
    by (simp add: sample_system_fields sample_public_witness sample_verify)
  from Verify_public_only [of sample_backend sample_system 3 "Proof 11",
      THEN conjunct2, THEN conjunct2, THEN conjunct1] sample_public_input
  have flip: "fst (Verify sample_backend sample_system 3 (Proof 11))
       = Inl (LibraryError ''pairing check failed'')"
    by (simp add: sample_system_fields sample_public_witness sample_verify)
  from t [THEN conjunct2, THEN conjunct1]
  have sup: "supplied (hash_only_assignment 2 2) = [BigInt 2]"
    by (simp add: sample_system_fields)
  from sample_public_input key batch depth same run flip sup show ?thesis by (intro conjI)
qed

lemma sample_validate_ok:
  "ValidateShape shape_ok (TreeDepth sample_system) (BatchSize sample_system) = Inr ()"
  by (simp add: ValidateShape_def shape_ok_def sample_system_def)

lemma sample_validate_short:
  "ValidateShape shape_short_proof (TreeDepth sample_system) (BatchSize sample_system)
     = Inl (WrongSizeOfMerkleProof 1 2)"
  by (simp add: ValidateShape_def shape_short_proof_def sample_system_def)

lemma sample_new_witness:
  "frontend_NewWitness sample_backend (complete_assignment p) False
     = Inr (complete_assignment p)"
  by (simp add: sample_backend_def complete_assignment_def)

lemma sample_prove:
  "groth16_Prove sample_backend cs pk (complete_assignment p)
     = (if PreRoot p = 0 then Inl (LibraryError ''constraint is not satisfied'')
        else Inr (nat \<bar>PreRoot p\<bar>))"
  by (simp add: sample_backend_def complete_assignment_def)

lemma sample_Prove_ok:
  "Prove sample_backend sample_system shape_ok
     = (Inr (Proof 258),
        [CallNewWitness (complete_assignment shape_ok) False, LogInfo ''generating proof'',
         CallGroth16Prove, LogInfo ''proof generated successfully''])"
proof -
  have "PreRoot shape_ok = 258" by (simp add: shape_ok_def)
  then show ?thesis
    by (simp add: Prove_shape_ok [OF sample_validate_ok] sample_new_witness sample_prove)
qed

theorem Prove_validates_first_witness:
  "ValidateShape shape_short_proof (TreeDepth sample_system) (BatchSize sample_system)
     = Inl (WrongSizeOfMerkleProof 1 2)
   \<and> Prove sample_backend sample_system shape_short_proof
       = (Inl (WrongSizeOfMerkleProof 1 2), [])
   \<and> ValidateShape shape_ok (TreeDepth sample_system) (BatchSize sample_system) = Inr ()
   \<and> Prove sample_backend sample_system shape_ok
       = (Inr (Proof 258),
          [CallNewWitness (complete_assignment shape_ok) False, LogInfo ''generating proof'',
           CallGroth16Prove, LogInfo ''proof generated successfully''])"
proof -
  from Prove_validates_first [of shape_short_proof sample_system sample_backend, THEN conjunct1]
    sample_validate_short
  have 1: "Prove sample_backend sample_system shape_short_proof
       = (Inl (WrongSizeOfMerkleProof 1 2), [])"
    by blast
  have pre: "PreRoot shape_ok = 258" by (simp add: shape_ok_def)
  from Prove_validates_first [of shape_ok sample_system sample_backend, THEN conjunct2]
    sample_validate_ok
  have 2: "Prove sample_backend sample_system shape_ok
       = (Inr (Proof 258),
          [CallNewWitness (complete_assignment shape_ok) False, LogInfo ''generating proof'',
           CallGroth16Prove, LogInfo ''proof generated successfully''])"
    by (simp add: sample_new_witness sample_prove pre)
  from 1 2 sample_validate_short sample_validate_ok show ?thesis by simp
qed

lemma send_new:
  "send json error new_ResponseWriter
     = error_response json (StatusCode error) (Code error) (Message error)"
  by (simp add: send_def MarshalJSON_def WriteHeader_def Write_def new_ResponseWriter_def
      error_response_def Let_def)

lemma ServeHTTP_read_error:
  "Method r = MethodPost \<Longrightarrow> Body r = Inl err \<Longrightarrow>
   ServeHTTP json backend ps w r
     = (send json (malformedBodyError err) w, [LogInfo ''received prove request'', CallReadAll])"
  by (simp add: ServeHTTP_def)

lemma ServeHTTP_decode_error:
  "Method r = MethodPost \<Longrightarrow> Body r = Inr buf \<Longrightarrow> json_Unmarshal json buf = Inl err \<Longrightarrow>
   ServeHTTP json backend ps w r
     = (send json (malformedBodyError err) w,
        [LogInfo ''received prove request'', CallReadAll, CallUnmarshal])"
  by (simp add: ServeHTTP_def)

lemma ServeHTTP_prove_error:
  "Method r = MethodPost \<Longrightarrow> Body r = Inr buf \<Longrightarrow> json_Unmarshal json buf = Inr params \<Longrightarrow>
   Prove backend ps params = (Inl err, evs) \<Longrightarrow>
   ServeHTTP json backend ps w r
     = (send json (provingError err) w,
        [LogInfo ''received prove request'', CallReadAll, CallUnmarshal] @ evs)"
  by (simp add: ServeHTTP_def)

lemma ServeHTTP_marshal_error:
  "Method r = MethodPost \<Longrightarrow> Body r = Inr buf \<Longrightarrow> json_Unmarshal json buf = Inr params \<Longrightarrow>
   Prove backend ps params = (Inr prf, evs) \<Longrightarrow> json_Marshal_Proof json prf = Inl err \<Longrightarrow>
   ServeHTTP json backend ps w r
     = (send json (unexpectedError err) w,
        [LogInfo ''received prove request'', CallReadAll, CallUnmarshal] @ evs @ [CallMarshal])"
  by (simp add: ServeHTTP_def)

lemma ServeHTTP_success:
  "Method r = MethodPost \<Longrightarrow> Body r = Inr buf \<Longrightarrow> json_Unmarshal json buf = Inr params \<Longrightarrow>
   Prove backend ps params = (Inr prf, evs) \<Longrightarrow>
   json_Marshal_Proof json prf = Inr responseBytes \<Longrightarrow>
   ServeHTTP json backend ps w r
     = (Write (WriteHeader w StatusOK) responseBytes,
        [LogInfo ''received prove request'', CallReadAll, CallUnmarshal] @ evs @ [CallMarshal])"
  by (simp add: ServeHTTP_def)

lemma ok_response:
  "Write (WriteHeader new_ResponseWriter StatusOK) bs = \<lparr>status = Some 200, body = bs\<rparr>"
  by (simp add: WriteHeader_def Write_def new_ResponseWriter_def StatusOK_def Let_def)

section \<open>The prove endpoint\<close>

text \<open>
  Claim C7. For a POST request: when reading the body or decoding it fails, the response
  has status 400 and the JSON body with code \<open>malformed_body\<close> and the error's message;
  when \<^verbatim>\<open>Prove\<close> fails, by shape validation or in the backend, status 400 and code
  \<open>proving_error\<close>; when serialising the proof fails, status 500 and code
  \<open>unexpected_error\<close>; otherwise status 200 and the serialised proof as body.
\<close>

theorem ServeHTTP_responses:
  assumes "Method r = ''POST''"
  shows
    "(\<forall>err. Body r = Inl err \<longrightarrow>
        fst (ServeHTTP json backend ps new_ResponseWriter r)
          = error_response json 400 ''malformed_body'' (error_Error err))
     \<and> (\<forall>buf err. Body r = Inr buf \<and> json_Unmarshal json buf = Inl err \<longrightarrow>
        fst (ServeHTTP json backend ps new_ResponseWriter r)
          = error_response json 400 ''malformed_body'' (error_Error err))
     \<and> (\<forall>buf params err. Body r = Inr buf \<and> json_Unmarshal json buf = Inr params
          \<and> fst (Prove backend ps params) = Inl err \<longrightarrow>
        fst (ServeHTTP json backend ps new_ResponseWriter r)
          = error_response json 400 ''proving_error'' (error_Error err))
     \<and> (\<forall>buf params err. Body r = Inr buf \<and> json_Unmarshal json buf = Inr params
          \<and> ValidateShape params (TreeDepth ps) (BatchSize ps) = Inl err \<longrightarrow>
        fst (ServeHTTP json backend ps new_ResponseWriter r)
          = error_response json 400 ''proving_error'' (error_Error err))
     \<and> (\<forall>buf params proved err. Body r = Inr buf \<and> json_Unmarshal json buf = Inr params
          \<and> fst (Prove backend ps params) = Inr proved \<and> json_Marshal_Proof json proved = Inl err \<longrightarrow>
        fst (ServeHTTP json backend ps new_ResponseWriter r)
          = error_response json 500 ''unexpected_error'' (error_Error err))
     \<and> (\<forall>buf params proved responseBytes. Body r = Inr buf \<and> json_Unmarshal json buf = Inr params
          \<and> fst (Prove backend ps params) = Inr proved
          \<and> json_Marshal_Proof json proved = Inr responseBytes \<longrightarrow>
        fst (ServeHTTP json backend ps new_ResponseWriter r)
          = \<lparr>status = Some 200, body = responseBytes\<rparr>)"
proof -
  from assms have m: "Method r = MethodPost" by (simp add: MethodPost_def)
  have malformed: "send json (malformedBodyError err) new_ResponseWriter
                     = error_response json 400 ''malformed_body'' (error_Error err)" for err
    by (simp add: send_new malformedBodyError_def StatusBadRequest_def)
  have proving: "send json (provingError err) new_ResponseWriter
                     = error_response json 400 ''proving_error'' (error_Error err)" for err
    by (simp add: send_new provingError_def StatusBadRequest_def)
  have unexpected: "send json (unexpectedError err) new_ResponseWriter
                     = error_response json 500 ''unexpected_error'' (error_Error err)" for err
    by (simp add: send_new unexpectedError_def StatusInternalServerError_def)
  have 1: "\<forall>err. Body r = Inl err \<longrightarrow>
        fst (ServeHTTP json backend ps new_ResponseWriter r)
          = error_response json 400 ''malformed_body'' (error_Error err)"
    by (simp add: ServeHTTP_read_error [OF m] malformed)
  have 2: "\<forall>buf err. Body r = Inr buf \<and> json_Unmarshal json buf = Inl err \<longrightarrow>
        fst (ServeHTTP json backend ps new_ResponseWriter r)
          = error_response json 400 ''malformed_body'' (error_Error err)"
    by (simp add: ServeHTTP_decode_error [OF m] malformed)
  have 3: "\<forall>buf params err. Body r = Inr buf \<and> json_Unmarshal json buf = Inr params
          \<and> fst (Prove backend ps params) = Inl err \<longrightarrow>
        fst (ServeHTTP json backend ps new_ResponseWriter r)
          = error_response json 400 ''proving_error'' (error_Error err)"
  proof (intro allI impI, elim conjE)
    fix buf params err
    assume b: "Body r = Inr buf" and u: "json_Unmarshal json buf = Inr params"
      and p: "fst (Prove backend ps params) = Inl err"
    from p obtain evs where "Prove backend ps params = (Inl err, evs)"
      by (cases "Prove backend ps params") simp
    from ServeHTTP_prove_error [OF m b u this]
    show "fst (ServeHTTP json backend ps new_ResponseWriter r)
          = error_response json 400 ''proving_error'' (error_Error err)"
      by (simp add: proving)
  qed
  have 4: "\<forall>buf params err. Body r = Inr buf \<and> json_Unmarshal json buf = Inr params
          \<and> ValidateShape params (TreeDepth ps) (BatchSize ps) = Inl err \<longrightarrow>
        fst (ServeHTTP json backend ps new_ResponseWriter r)
          = error_response json 400 ''proving_error'' (error_Error err)"
  proof (intro allI impI, elim conjE)
    fix buf params err
    assume b: "Body r = Inr buf" and u: "json_Unmarshal json buf = Inr params"
      and v: "ValidateShape params (TreeDepth ps) (BatchSize ps) = Inl err"
    from ServeHTTP_prove_error [OF m b u Prove_shape_error [OF v, of backend]]
    show "fst (ServeHTTP json backend ps new_ResponseWriter r)
          = error_response json 400 ''proving_error'' (error_Error err)"
      by (simp add: proving)
  qed
  have 5: "\<forall>buf params proved err. Body r = Inr buf \<and> json_Unmarshal json buf = Inr params
          \<and> fst (Prove backend ps params) = Inr proved \<and> json_Marshal_Proof json proved = Inl err \<longrightarrow>
        fst (ServeHTTP json backend ps new_ResponseWriter r)
          = error_response json 500 ''unexpected_error'' (error_Error err)"
  proof (intro allI impI, elim conjE)
    fix buf params proved err
    assume b: "Body r = Inr buf" and u: "json_Unmarshal json buf = Inr params"
      and p: "fst (Prove backend ps params) = Inr proved"
      and j: "json_Marshal_Proof json proved = Inl err"
    from p obtain evs where "Prove backend ps params = (Inr proved, evs)"
      by (cases "Prove backend ps params") simp
    from ServeHTTP_marshal_error [OF m b u this j]
    show "fst (ServeHTTP json backend ps new_ResponseWriter r)
          = error_response json 500 ''unexpected_error'' (error_Error err)"
      by (simp add: unexpected)
  qed
  have 6: "\<forall>buf params proved responseBytes. Body r = Inr buf \<and> json_Unmarshal json buf = Inr params
          \<and> fst (Prove backend ps params) = Inr proved
          \<and> json_Marshal_Proof json proved = Inr responseBytes \<longrightarrow>
        fst (ServeHTTP json backend ps new_ResponseWriter r)
          = \<lparr>status = Some 200, body = responseBytes\<rparr>"
  proof (intro allI impI, elim conjE)
    fix buf params proved responseBytes
    assume b: "Body r = Inr buf" and u: "json_Unmarshal json buf = Inr params"
      and p: "fst (Prove backend ps params) = Inr proved"
      and j: "json_Marshal_Proof json proved = Inr responseBytes"
    from p obtain evs where "Prove backend ps params = (Inr proved, evs)"
      by (cases "Prove backend ps params") simp
    from ServeHTTP_success [OF m b u this j]
    show "fst (ServeHTTP json backend ps new_ResponseWriter r)
          = \<lparr>status = Some 200, body = responseBytes\<rparr>"
      by (simp add: ok_response)
  qed
  from 1 2 3 4 5 6 show ?thesis by (intro conjI)
qed

text \<open>
  Claim C8. For a request whose method is not POST the handler answers with status 405
  and an empty body, and does nothing else: the body is not read and \<^verbatim>\<open>Prove\<close> is not
  called.
\<close>

theorem ServeHTTP_method_not_allowed:
  "Method r \<noteq> ''POST'' \<Longrightarrow>
   ServeHTTP json backend ps new_ResponseWriter r = (\<lparr>status = Some 405, body = []\<rparr>, [])"
  by (simp add: ServeHTTP_def MethodPost_def WriteHeader_def new_ResponseWriter_def
      StatusMethodNotAllowed_def)

theorem ServeHTTP_method_not_allowed_witness:
  "Method \<lparr>Method = ''GET'', Body = Inr [1]\<rparr> \<noteq> ''POST''
   \<and> ServeHTTP sample_json sample_backend sample_system new_ResponseWriter
         \<lparr>Method = ''GET'', Body = Inr [1]\<rparr>
       = (\<lparr>status = Some 405, body = []\<rparr>, [])"
  using ServeHTTP_method_not_allowed
    [of "\<lparr>Method = ''GET'', Body = Inr [1]\<rparr>" sample_json sample_backend sample_system]
  by simp


lemma sample_unmarshal:
  "json_Unmarshal sample_json [1] = Inr shape_ok"
  "json_Unmarshal sample_json [2] = Inr shape_short_proof"
  "json_Unmarshal sample_json [3] = Inr (shape_ok\<lparr>PreRoot := 0\<rparr>)"
  "json_Unmarshal sample_json [4] = Inr (shape_ok\<lparr>PreRoot := 300\<rparr>)"
  "json_Unmarshal sample_json [9] = Inl (LibraryError ''unexpected end of JSON input'')"
  by (simp_all add: sample_json_def)

lemma sample_marshal:
  "json_Marshal_Proof sample_json (Proof 258) = Inr [50, 53, 56]"
  "json_Marshal_Proof sample_json (Proof 300) = Inl (LibraryError ''unsupported value'')"
  by (simp_all add: sample_json_def show_nat.simps)

lemma sample_validate_root:
  "ValidateShape (shape_ok\<lparr>PreRoot := x\<rparr>) (TreeDepth sample_system) (BatchSize sample_system)
     = Inr ()"
  by (simp add: ValidateShape_def shape_ok_def sample_system_def)

lemma sample_Prove_zero:
  "fst (Prove sample_backend sample_system (shape_ok\<lparr>PreRoot := 0\<rparr>))
     = Inl (LibraryError ''constraint is not satisfied'')"
  by (simp add: Prove_shape_ok [OF sample_validate_root] sample_new_witness sample_prove)

lemma sample_Prove_big:
  "fst (Prove sample_backend sample_system (shape_ok\<lparr>PreRoot := 300\<rparr>)) = Inr (Proof 300)"
  by (simp add: Prove_shape_ok [OF sample_validate_root] sample_new_witness sample_prove)

theorem ServeHTTP_responses_witness:
  "Method (post (Inr [1])) = ''POST''
   \<and> fst (ServeHTTP sample_json sample_backend sample_system new_ResponseWriter
             (post (Inl (LibraryError ''unexpected EOF''))))
       = error_response sample_json 400 ''malformed_body'' ''unexpected EOF''
   \<and> fst (ServeHTTP sample_json sample_backend sample_system new_ResponseWriter (post (Inr [9])))
       = error_response sample_json 400 ''malformed_body'' ''unexpected end of JSON input''
   \<and> fst (ServeHTTP sample_json sample_backend sample_system new_ResponseWriter (post (Inr [2])))
       = error_response sample_json 400 ''proving_error''
           ''wrong size of merkle proof for proof 1: 2''
   \<and> fst (ServeHTTP sample_json sample_backend sample_system new_ResponseWriter (post (Inr [3])))
       = error_response sample_json 400 ''proving_error'' ''constraint is not satisfied''
   \<and> fst (ServeHTTP sample_json sample_backend sample_system new_ResponseWriter (post (Inr [4])))
       = error_response sample_json 500 ''unexpected_error'' ''unsupported value''
   \<and> fst (ServeHTTP sample_json sample_backend sample_system new_ResponseWriter (post (Inr [1])))
       = \<lparr>status = Some 200, body = [50, 53, 56]\<rparr>"
proof -
  have m: "Method (post b) = ''POST''" for b
    by (simp add: post_def)
  have b: "Body (post b) = b" for b
    by (simp add: post_def)
  note t = ServeHTTP_responses [OF m, of _ sample_json sample_backend sample_system]
  from t [of "Inl (LibraryError ''unexpected EOF'')", THEN conjunct1]
  have 1: "fst (ServeHTTP sample_json sample_backend sample_system new_ResponseWriter
             (post (Inl (LibraryError ''unexpected EOF''))))
       = error_response sample_json 400 ''malformed_body'' ''unexpected EOF''"
    by (simp add: b)
  from t [of "Inr [9]", THEN conjunct2, THEN conjunct1]
  have 2: "fst (ServeHTTP sample_json sample_backend sample_system new_ResponseWriter (post (Inr [9])))
       = error_response sample_json 400 ''malformed_body'' ''unexpected end of JSON input''"
    by (simp add: b sample_unmarshal)
  from t [of "Inr [2]", THEN conjunct2, THEN conjunct2, THEN conjunct2, THEN conjunct1]
  have 3: "fst (ServeHTTP sample_json sample_backend sample_system new_ResponseWriter (post (Inr [2])))
       = error_response sample_json 400 ''proving_error''
           ''wrong size of merkle proof for proof 1: 2''"
    by (simp add: b sample_unmarshal sample_validate_short show_nat.simps)
  from t [of "Inr [3]", THEN conjunct2, THEN conjunct2, THEN conjunct1]
  have 4: "fst (ServeHTTP sample_json sample_backend sample_system new_ResponseWriter (post (Inr [3])))
       = error_response sample_json 400 ''proving_error'' ''constraint is not satisfied''"
    by (simp add: b sample_unmarshal sample_Prove_zero)
  from t [of "Inr [4]", THEN conjunct2, THEN conjunct2, THEN conjunct2, THEN conjunct2,
      THEN conjunct1]
  have 5: "fst (ServeHTTP sample_json sample_backend sample_system new_ResponseWriter (post (Inr [4])))
       = error_response sample_json 500 ''unexpected_error'' ''unsupported value''"
    by (simp add: b sample_unmarshal sample_Prove_big sample_marshal)
  from t [of "Inr [1]", THEN conjunct2, THEN conjunct2, THEN conjunct2, THEN conjunct2,
      THEN conjunct2]
  have 6: "fst (ServeHTTP sample_json sample_backend sample_system new_ResponseWriter (post (Inr [1])))
       = \<lparr>status = Some 200, body = [50, 53, 56]\<rparr>"
    by (simp add: b sample_unmarshal sample_Prove_ok sample_marshal)
  from m 1 2 3 4 5 6 show ?thesis by (intro conjI)
qed

end
